theory Spec2Isabelle
  imports Complex_Main "HOL-Library.Log_Nat"
begin

section \<open>JavaScript numbers\<close>

text \<open>
  The scroll mixin computes with JavaScript numbers. A number is modelled as an exact
  real or as the not-a-number value. Infinities are left out. Rounding is modelled in
  one place, the momentum of a wheel event, which the handler stores and compares with
  the next one; the pixel offsets that the handlers add, subtract and multiply are kept
  exact. Every arithmetic operation with a not-a-number operand gives not-a-number, and
  every comparison with a not-a-number operand is false.
\<close>

datatype jsnum = NaN | Fin real

fun js_add :: "jsnum \<Rightarrow> jsnum \<Rightarrow> jsnum" where
  "js_add (Fin a) (Fin b) = Fin (a + b)"
| "js_add _ _ = NaN"

fun js_sub :: "jsnum \<Rightarrow> jsnum \<Rightarrow> jsnum" where
  "js_sub (Fin a) (Fin b) = Fin (a - b)"
| "js_sub _ _ = NaN"

fun js_mul :: "jsnum \<Rightarrow> jsnum \<Rightarrow> jsnum" where
  "js_mul (Fin a) (Fin b) = Fin (a * b)"
| "js_mul _ _ = NaN"

fun js_abs :: "jsnum \<Rightarrow> jsnum" where
  "js_abs (Fin a) = Fin \<bar>a\<bar>"
| "js_abs NaN = NaN"

fun js_lt :: "jsnum \<Rightarrow> jsnum \<Rightarrow> bool" where
  "js_lt (Fin a) (Fin b) = (a < b)"
| "js_lt _ _ = False"

fun js_le :: "jsnum \<Rightarrow> jsnum \<Rightarrow> bool" where
  "js_le (Fin a) (Fin b) = (a \<le> b)"
| "js_le _ _ = False"

definition js_gt :: "jsnum \<Rightarrow> jsnum \<Rightarrow> bool" where
  "js_gt a b = js_lt b a"

text \<open>
  Where the handler compares a sum for order with a value it stored before, the rounding
  of the sum decides a tie, and the sum is rounded as an IEEE double rounds it: to the
  nearest multiple of the unit in the last of 53 binary places, a tie going to the even
  multiple. \<open>binade x\<close> is the exponent \<open>e\<close> with \<open>2 ^ e \<le> |x| < 2 ^ (e + 1)\<close>;
  below \<open>2 ^ (- 1022)\<close> the unit stays that of the smallest normal numbers. Sums
  beyond the largest double are not modelled.
\<close>

definition roundHalfEven :: "real \<Rightarrow> int" where
  "roundHalfEven q =
     (let f = \<lfloor>q\<rfloor>; r = q - of_int f
      in if r < 1 / 2 then f else if 1 / 2 < r then f + 1 else if even f then f else f + 1)"

definition binade :: "real \<Rightarrow> int" where
  "binade x =
     (if 1 \<le> \<bar>x\<bar> then bitlen \<lfloor>\<bar>x\<bar>\<rfloor> - 1 else - bitlen (\<lceil>1 / \<bar>x\<bar>\<rceil> - 1))"

definition pow2 :: "int \<Rightarrow> real" where
  "pow2 e = (if 0 \<le> e then 2 ^ nat e else 1 / 2 ^ nat (- e))"

definition toDouble :: "real \<Rightarrow> real" where
  "toDouble x =
     (if x = 0 then 0
      else let e = max (binade x) (- 1022); ulp = pow2 (e - 52)
           in of_int (roundHalfEven (x / ulp)) * ulp)"

fun js_round :: "jsnum \<Rightarrow> jsnum" where
  "js_round (Fin a) = Fin (toDouble a)"
| "js_round NaN = NaN"

text \<open>
  A property that was never assigned reads as \<open>undefined\<close> (\<open>None\<close>); in arithmetic
  and in comparisons \<open>undefined\<close> converts to not-a-number.
\<close>

fun to_number :: "jsnum option \<Rightarrow> jsnum" where
  "to_number None = NaN"
| "to_number (Some x) = x"

text \<open>
  \<open>window.parseInt\<close> on the decimal strings a computed font size can be: leading
  blanks, an optional sign, then the longest run of decimal digits; not-a-number when
  there is no digit.
\<close>

definition is_digit :: "char \<Rightarrow> bool" where
  "is_digit c = (48 \<le> (of_char c :: nat) \<and> (of_char c :: nat) \<le> 57)"

definition digits_value :: "string \<Rightarrow> nat" where
  "digits_value ds = foldl (\<lambda>acc c. 10 * acc + (of_char c - 48)) 0 ds"

definition parseInt :: "string \<Rightarrow> jsnum" where
  "parseInt str =
     (let t = dropWhile (\<lambda>c. c = CHR '' '') str;
          neg = (t \<noteq> [] \<and> hd t = CHR ''-'');
          u = (if t \<noteq> [] \<and> (hd t = CHR ''-'' \<or> hd t = CHR ''+'') then tl t else t);
          ds = takeWhile is_digit u
      in if ds = [] then NaN
         else if neg then Fin (- real (digits_value ds))
         else Fin (real (digits_value ds)))"

section \<open>Elements and the capacity test\<close>

text \<open>
  What the mixin reads of a DOM element: its tag name, its scroll metrics, the
  \<open>overflow\<close> of its computed style, and whether it is the grid itself
  (\<open>el === this\<close>). \<open>scrollTop\<close> and \<open>scrollLeft\<close> hold the value the code
  assigned last; the clamping a browser applies to an assigned offset is not part of
  the mixin and is not modelled.
\<close>

record element =
  localName :: string
  scrollTop :: jsnum
  scrollLeft :: jsnum
  scrollHeight :: jsnum
  scrollWidth :: jsnum
  offsetHeight :: jsnum
  offsetWidth :: jsnum
  clientHeight :: jsnum
  clientWidth :: jsnum
  overflow :: string
  isThis :: bool

text \<open>\<open>_canScroll(el, deltaX, deltaY)\<close>.\<close>

definition canScroll :: "element \<Rightarrow> jsnum \<Rightarrow> jsnum \<Rightarrow> bool" where
  "canScroll el deltaX deltaY =
     ((js_gt deltaY (Fin 0) \<and> js_lt (scrollTop el) (js_sub (scrollHeight el) (offsetHeight el))) \<or>
      (js_lt deltaY (Fin 0) \<and> js_gt (scrollTop el) (Fin 0)) \<or>
      (js_gt deltaX (Fin 0) \<and> js_lt (scrollLeft el) (js_sub (scrollWidth el) (offsetWidth el))) \<or>
      (js_lt deltaX (Fin 0) \<and> js_gt (scrollLeft el) (Fin 0)))"

text \<open>
  The capacity test in the words of the specification, which measures the viewport by
  \<open>clientHeight\<close> and \<open>clientWidth\<close>; kept apart from \<^const>\<open>canScroll\<close> for
  comparison.
\<close>

definition capacity_spec :: "element \<Rightarrow> jsnum \<Rightarrow> jsnum \<Rightarrow> bool" where
  "capacity_spec el dx dy =
     ((js_gt dy (Fin 0) \<and> js_lt (scrollTop el) (js_sub (scrollHeight el) (clientHeight el))) \<or>
      (js_lt dy (Fin 0) \<and> js_gt (scrollTop el) (Fin 0)) \<or>
      (js_gt dx (Fin 0) \<and> js_lt (scrollLeft el) (js_sub (scrollWidth el) (clientWidth el))) \<or>
      (js_lt dx (Fin 0) \<and> js_gt (scrollLeft el) (Fin 0)))"

section \<open>The ancestor probe\<close>

text \<open>
  \<open>_hasScrolledAncestor(el, deltaX, deltaY)\<close>. The argument list is the element
  followed by its chain of \<open>parentElement\<close>s, so the tail is empty where
  \<open>el.parentElement\<close> is null. The JavaScript function falls off its end in the last
  case and returns \<open>undefined\<close>, here \<open>None\<close>.
\<close>

fun hasScrolledAncestor :: "element list \<Rightarrow> jsnum \<Rightarrow> jsnum \<Rightarrow> bool option" where
  "hasScrolledAncestor [] deltaX deltaY = None"
| "hasScrolledAncestor (el # parents) deltaX deltaY =
     (if localName el = ''vaadin-grid-cell-content'' then Some False
      else if canScroll el deltaX deltaY \<and> overflow el \<in> set [''auto'', ''scroll''] then Some True
      else if \<not> isThis el \<and> parents \<noteq> [] then hasScrolledAncestor parents deltaX deltaY
      else None)"

definition truthy :: "bool option \<Rightarrow> bool" where
  "truthy r = (r = Some True)"

section \<open>The grid\<close>

text \<open>
  A row of the body is a DOM node: the grid refers to it by its identity (a number),
  and the store \<open>rows\<close> gives the \<open>index\<close> and \<open>hidden\<close> properties of each node.
\<close>

record row =
  index :: int
  hidden :: bool

datatype callback = ReorderRows | RestoreHeaderTransform string

text \<open>
  The fields of \<open>this\<close> that the mixin reads or writes, under the source's names
  without the leading underscores, and the parts of \<open>this.$\<close> it touches: the scroll
  surface \<open>table\<close>, the client heights of header and footer, the header's
  \<open>style.transform\<close>, and the \<open>tr\<close> children of \<open>items\<close> in document order.
  A boolean that was never assigned is \<open>undefined\<close>, which every test of the source
  treats as false.

  Time is explicit: \<open>now\<close> is the clock in milliseconds,
  \<open>debouncerIgnoreNewWheel\<close> holds the deadline of the pending timeout of that
  debouncer, \<open>debouncerWheelAnimationFrame\<close> says whether its animation-frame job is
  pending, and \<open>timeouts\<close> lists the pending \<open>setTimeout\<close> callbacks with their
  deadlines. Two counters record effects: \<open>domMoves\<close> counts the calls of
  \<open>appendChild\<close> and \<open>insertBefore\<close> on the body, \<open>scrollHandlerCalls\<close> the
  calls of \<open>_scrollHandler\<close>.
\<close>

record grid =
  table :: element
  headerClientHeight :: jsnum
  footerClientHeight :: jsnum
  headerTransform :: string
  items :: "nat list"
  rows :: "nat \<Rightarrow> row"
  scrollLineHeight :: "jsnum option"
  scrollPageHeight :: "jsnum option"
  deltaYAcc :: jsnum
  wheelAnimationFrame :: bool
  debouncerWheelAnimationFrame :: bool
  hasResidualMomentum :: bool
  ignoreNewWheel :: bool
  debouncerIgnoreNewWheel :: "nat option"
  previousMomentum :: "jsnum option"
  mouseDown :: bool
  pendingReorder :: bool
  rowWithFocusedElement :: "nat option"
  virtualStart :: int
  vidxOffset :: int
  safari :: bool
  timeouts :: "(nat \<times> callback) list"
  now :: nat
  domMoves :: nat
  scrollHandlerCalls :: nat

definition SCROLLING :: nat where
  "SCROLLING = 500"

definition IGNORE_WHEEL :: nat where
  "IGNORE_WHEEL = 500"

subsection \<open>Geometry probe and page height\<close>

text \<open>
  \<open>_getScrollLineHeight()\<close>; the argument is the \<open>fontSize\<close> of the computed style of
  the probe element, the empty string when the browser reports none.
\<close>

definition getScrollLineHeight :: "string \<Rightarrow> jsnum option" where
  "getScrollLineHeight fontSize = (if fontSize \<noteq> [] then Some (parseInt fontSize) else None)"

text \<open>\<open>_scrollViewportHeightUpdated(_viewportHeight)\<close>, the observer of \<open>_viewportHeight\<close>.\<close>

definition scrollViewportHeightUpdated :: "jsnum \<Rightarrow> grid \<Rightarrow> grid" where
  "scrollViewportHeightUpdated viewportHeight s =
     s\<lparr>scrollPageHeight :=
         Some (js_sub (js_sub (js_sub viewportHeight (headerClientHeight s)) (footerClientHeight s))
                 (to_number (scrollLineHeight s)))\<rparr>"

subsection \<open>The wheel handler\<close>

record wheel_event =
  ctrlKey :: bool
  deltaX :: real
  deltaY :: real
  deltaMode :: nat
  target :: "element list"

definition DOM_DELTA_LINE :: nat where
  "DOM_DELTA_LINE = 1"

definition DOM_DELTA_PAGE :: nat where
  "DOM_DELTA_PAGE = 2"

text \<open>The conversion of the vertical delta to pixels at the head of \<open>_onWheel\<close>.\<close>

definition normalizedDeltaY :: "wheel_event \<Rightarrow> grid \<Rightarrow> jsnum" where
  "normalizedDeltaY e s =
     (if deltaMode e = DOM_DELTA_LINE then js_mul (Fin (deltaY e)) (to_number (scrollLineHeight s))
      else if deltaMode e = DOM_DELTA_PAGE then js_mul (Fin (deltaY e)) (to_number (scrollPageHeight s))
      else Fin (deltaY e))"

text \<open>
  Modelled from the spec: \<open>_scrollHandler\<close> is a method of the host class that is
  defined outside this mixin; the specification says the call triggers the post-scroll
  visual update. The model records that it was called.
\<close>

definition scrollHandler :: "grid \<Rightarrow> grid" where
  "scrollHandler s = s\<lparr>scrollHandlerCalls := Suc (scrollHandlerCalls s)\<rparr>"

text \<open>
  The parts of \<open>_onWheel(e)\<close> that have a name in the source: the guard of its first
  line, the vertical delta after \<open>deltaY += this._deltaYAcc\<close>, and \<open>momentum\<close>.
\<close>

definition wheelBypassed :: "wheel_event \<Rightarrow> bool" where
  "wheelBypassed e =
     (ctrlKey e \<or> truthy (hasScrolledAncestor (target e) (Fin (deltaX e)) (Fin (deltaY e))))"

definition foldedDeltaY :: "wheel_event \<Rightarrow> grid \<Rightarrow> jsnum" where
  "foldedDeltaY e s = js_add (normalizedDeltaY e s) (deltaYAcc s)"

definition momentum :: "wheel_event \<Rightarrow> grid \<Rightarrow> jsnum" where
  "momentum e s = js_round (js_add (js_abs (Fin (deltaX e))) (js_abs (foldedDeltaY e s)))"

text \<open>
  \<open>_onWheel(e)\<close>. The result pairs whether the handler called \<open>e.preventDefault()\<close>
  with the grid after the handler.
\<close>

definition onWheel :: "wheel_event \<Rightarrow> grid \<Rightarrow> bool \<times> grid" where
  "onWheel e s =
     (if wheelBypassed e then (False, s)
      else if wheelAnimationFrame s
      then (True, s\<lparr>deltaYAcc := js_add (deltaYAcc s) (normalizedDeltaY e s)\<rparr>)
      else
        let deltaY2 = foldedDeltaY e s;
            m = momentum e s;
            s1 = s\<lparr>deltaYAcc := Fin 0, wheelAnimationFrame := True,
                   debouncerWheelAnimationFrame := True\<rparr>
        in
        if canScroll (table s1) (Fin (deltaX e)) deltaY2
        then
          let s2 = s1\<lparr>table := (table s1)\<lparr>scrollTop := js_add (scrollTop (table s1)) deltaY2\<rparr>\<rparr>;
              s3 = s2\<lparr>table := (table s2)\<lparr>scrollLeft := js_add (scrollLeft (table s2)) (Fin (deltaX e))\<rparr>\<rparr>;
              s4 = scrollHandler s3
          in (True, s4\<lparr>hasResidualMomentum := True, ignoreNewWheel := True,
                      debouncerIgnoreNewWheel := Some (now s4 + IGNORE_WHEEL),
                      previousMomentum := Some m\<rparr>)
        else if (hasResidualMomentum s1 \<and> js_le m (to_number (previousMomentum s1)))
                \<or> ignoreNewWheel s1
        then (True, s1\<lparr>previousMomentum := Some m\<rparr>)
        else if js_gt m (to_number (previousMomentum s1))
        then (False, s1\<lparr>hasResidualMomentum := False, previousMomentum := Some m\<rparr>)
        else (False, s1\<lparr>previousMomentum := Some m\<rparr>))"

text \<open>
  The callback of the animation-frame debouncer armed by \<open>_onWheel\<close>, run by the
  browser at the next animation frame.
\<close>

definition animationFrame :: "grid \<Rightarrow> grid" where
  "animationFrame s =
     (if debouncerWheelAnimationFrame s
      then s\<lparr>wheelAnimationFrame := False, debouncerWheelAnimationFrame := False\<rparr>
      else s)"

subsection \<open>Pointer drag on the scroll surface\<close>

text \<open>The \<open>mousedown\<close> and \<open>mouseup\<close> listeners that \<open>ready()\<close> puts on the scroll target.\<close>

definition onMouseDown :: "grid \<Rightarrow> grid" where
  "onMouseDown s = s\<lparr>mouseDown := True\<rparr>"

definition onMouseUp :: "grid \<Rightarrow> grid" where
  "onMouseUp s =
     (let s1 = s\<lparr>mouseDown := False\<rparr>
      in if pendingReorder s1
         then s1\<lparr>pendingReorder := False,
                 timeouts := timeouts s1 @ [(now s1 + SCROLLING, ReorderRows)]\<rparr>
         else s1)"

subsection \<open>Reordering the rows\<close>

text \<open>
  \<open>body.appendChild(node)\<close> and \<open>body.insertBefore(node, ref)\<close> for a node that is a
  child of the body already: the node is taken out of the child list and put at the end,
  or in front of \<open>ref\<close>; inserting a node before itself leaves the list as it is. In
  \<open>_reorderRows\<close> the reference node is a child of the body at every call.
\<close>

definition appendChild :: "nat \<Rightarrow> grid \<Rightarrow> grid" where
  "appendChild node s =
     s\<lparr>items := remove1 node (items s) @ [node], domMoves := Suc (domMoves s)\<rparr>"

definition insertBefore :: "nat \<Rightarrow> nat \<Rightarrow> grid \<Rightarrow> grid" where
  "insertBefore node ref s =
     (if node = ref then s\<lparr>domMoves := Suc (domMoves s)\<rparr>
      else
        let rest = remove1 node (items s)
        in s\<lparr>items := takeWhile (\<lambda>x. x \<noteq> ref) rest @ node # dropWhile (\<lambda>x. x \<noteq> ref) rest,
             domMoves := Suc (domMoves s)\<rparr>)"

text \<open>
  A call of \<open>_reorderRows\<close> returns, or it stops with a \<open>TypeError\<close> when a loop hands
  \<open>undefined\<close> (an index outside the node list) to the DOM; either way the grid is as
  the call left it.
\<close>

datatype outcome = Returned grid | TypeError grid

fun grid_of :: "outcome \<Rightarrow> grid" where
  "grid_of (Returned s) = s"
| "grid_of (TypeError s) = s"

text \<open>\<open>Array.from(items).indexOf(x)\<close>: the first position of \<open>x\<close>, or \<open>-1\<close>.\<close>

fun indexOf :: "'a list \<Rightarrow> 'a \<Rightarrow> int" where
  "indexOf [] x = -1"
| "indexOf (y # ys) x = (if y = x then 0 else (let r = indexOf ys x in if r < 0 then -1 else r + 1))"

text \<open>
  \<open>this._rowWithFocusedElement || Array.from(items).filter((row) => !row.hidden)[0]\<close>,
  over the node list \<open>its\<close>.
\<close>

definition targetRow :: "nat list \<Rightarrow> grid \<Rightarrow> nat option" where
  "targetRow its s =
     (case rowWithFocusedElement s of
        Some r \<Rightarrow> Some r
      | None \<Rightarrow> (case filter (\<lambda>r. \<not> hidden (rows s r)) its of [] \<Rightarrow> None | r # _ \<Rightarrow> Some r))"

text \<open>
  The two \<open>for\<close> statements over the static node list \<open>its\<close>. \<open>appendLoop its i n\<close> is
  \<open>for (; i < delta; i++) body.appendChild(items[i])\<close> with \<open>n = delta - i\<close> rounds
  to go; \<open>insertLoop its i n\<close> is
  \<open>for (; i < items.length; i++) body.insertBefore(items[i], items[0])\<close> with
  \<open>n = items.length - i\<close> rounds to go.
\<close>

fun appendLoop :: "nat list \<Rightarrow> nat \<Rightarrow> nat \<Rightarrow> grid \<Rightarrow> outcome" where
  "appendLoop its i 0 s = Returned s"
| "appendLoop its i (Suc n) s =
     (if i < length its then appendLoop its (Suc i) n (appendChild (its ! i) s)
      else TypeError s)"

fun insertLoop :: "nat list \<Rightarrow> int \<Rightarrow> nat \<Rightarrow> grid \<Rightarrow> outcome" where
  "insertLoop its i 0 s = Returned s"
| "insertLoop its i (Suc n) s =
     (if 0 \<le> i \<and> i < int (length its)
      then insertLoop its (i + 1) n (insertBefore (its ! nat i) (its ! 0) s)
      else TypeError s)"

text \<open>The remedy for Safari at the end of \<open>_reorderRows\<close>.\<close>

definition safariWorkaround :: "grid \<Rightarrow> grid" where
  "safariWorkaround s =
     (if safari s
      then s\<lparr>headerTransform := [],
             timeouts := timeouts s @ [(now s, RestoreHeaderTransform (headerTransform s))]\<rparr>
      else s)"

text \<open>
  The difference between the place of the target row in the node list and the place
  its \<open>index\<close> asks for, as \<open>_reorderRows\<close> computes it.
\<close>

definition reorderDelta :: "nat list \<Rightarrow> nat \<Rightarrow> grid \<Rightarrow> int" where
  "reorderDelta its t s =
     (let adjustedVirtualStart = virtualStart s + vidxOffset s;
          targetPhysicalIndex = index (rows s t) - adjustedVirtualStart
      in indexOf its t - targetPhysicalIndex)"

text \<open>\<open>_reorderRows()\<close>.\<close>

definition reorderRows :: "grid \<Rightarrow> outcome" where
  "reorderRows s =
     (if mouseDown s then Returned (s\<lparr>pendingReorder := True\<rparr>)
      else
        let its = items s in
        if length its = 0 then Returned s
        else
          (case targetRow its s of
             None \<Rightarrow> Returned s
           | Some t \<Rightarrow>
               let delta = reorderDelta its t s;
                   r = (if delta > 0 then appendLoop its 0 (nat delta) s
                        else if delta < 0
                        then insertLoop its (int (length its) + delta) (nat (- delta)) s
                        else Returned s)
               in (case r of
                     Returned s' \<Rightarrow> Returned (safariWorkaround s')
                   | TypeError s' \<Rightarrow> TypeError s')))"

subsection \<open>Timers\<close>

text \<open>
  What the browser does when \<open>d\<close> milliseconds pass: the clock advances, the timeout
  of the ignore-new-wheel debouncer runs its callback when its deadline is reached, and
  the \<open>setTimeout\<close> callbacks that are due run in the order of their deadlines.
  Callbacks that these callbacks schedule wait for the next turn.
\<close>

definition runCallback :: "callback \<Rightarrow> grid \<Rightarrow> grid" where
  "runCallback cb s =
     (case cb of
        ReorderRows \<Rightarrow> grid_of (reorderRows s)
      | RestoreHeaderTransform t \<Rightarrow> s\<lparr>headerTransform := t\<rparr>)"

definition elapse :: "nat \<Rightarrow> grid \<Rightarrow> grid" where
  "elapse d s =
     (let s1 = s\<lparr>now := now s + d\<rparr>;
          s2 = (case debouncerIgnoreNewWheel s1 of
                  Some deadline \<Rightarrow>
                    if deadline \<le> now s1
                    then s1\<lparr>ignoreNewWheel := False, debouncerIgnoreNewWheel := None\<rparr>
                    else s1
                | None \<Rightarrow> s1);
          due = filter (\<lambda>(deadline, cb). deadline \<le> now s2) (timeouts s2);
          later = filter (\<lambda>(deadline, cb). \<not> deadline \<le> now s2) (timeouts s2)
      in foldl (\<lambda>g (deadline, cb). runCallback cb g) (s2\<lparr>timeouts := later\<rparr>) (sort_key fst due))"





section \<open>Notions of the specification\<close>

text \<open>
  The physical order of the rows is the list of the \<open>index\<close> properties of the
  \<open>tr\<close> children in document order; the logical order of the rendered window counts
  up from \<open>_virtualStart + _vidxOffset\<close>.
\<close>

definition physicalOrder :: "grid \<Rightarrow> int list" where
  "physicalOrder s = map (\<lambda>r. index (rows s r)) (items s)"

definition logicalOrder :: "grid \<Rightarrow> int list" where
  "logicalOrder s = map (\<lambda>i. virtualStart s + vidxOffset s + int i) [0..<length (items s)]"

text \<open>
  The target row in the words of the specification: the focused row if one is present
  and still rendered, otherwise the first row that is not hidden; kept apart from
  \<^const>\<open>targetRow\<close> for comparison.
\<close>

definition targetRow_spec :: "nat list \<Rightarrow> grid \<Rightarrow> nat option" where
  "targetRow_spec its s =
     (let firstVisible = (case filter (\<lambda>r. \<not> hidden (rows s r)) its of [] \<Rightarrow> None | r # _ \<Rightarrow> Some r)
      in case rowWithFocusedElement s of
           Some r \<Rightarrow> if r \<in> set its then Some r else firstVisible
         | None \<Rightarrow> firstVisible)"

text \<open>
  The part of the grid that the wheel handler and its two debouncers work on, with the
  clock; reordering and the \<open>setTimeout\<close> callbacks never write it.
\<close>

definition wheelState ::
  "grid \<Rightarrow> element \<times> jsnum \<times> bool \<times> bool \<times> bool \<times> bool \<times> nat option \<times> jsnum option \<times> nat" where
  "wheelState s =
     (table s, deltaYAcc s, wheelAnimationFrame s, debouncerWheelAnimationFrame s,
      hasResidualMomentum s, ignoreNewWheel s, debouncerIgnoreNewWheel s, previousMomentum s, now s)"

section \<open>Example values\<close>

text \<open>
  A scroll surface of height 400 over 1000 pixels of content, at the top; the same
  surface near the bottom with a horizontal scroll bar of 17 pixels, so that its
  \<open>offsetHeight\<close> exceeds its \<open>clientHeight\<close>; the grid element; and three elements
  of cell content.
\<close>

definition exampleTable :: element where
  "exampleTable = \<lparr>localName = ''table'', scrollTop = Fin 0, scrollLeft = Fin 0,
     scrollHeight = Fin 1000, scrollWidth = Fin 1200, offsetHeight = Fin 400, offsetWidth = Fin 800,
     clientHeight = Fin 400, clientWidth = Fin 800, overflow = ''auto'', isThis = False\<rparr>"

definition el590 :: element where
  "el590 = \<lparr>localName = ''table'', scrollTop = Fin 590, scrollLeft = Fin 0,
     scrollHeight = Fin 1000, scrollWidth = Fin 1200, offsetHeight = Fin 417, offsetWidth = Fin 800,
     clientHeight = Fin 400, clientWidth = Fin 800, overflow = ''auto'', isThis = False\<rparr>"

definition exampleHost :: element where
  "exampleHost = \<lparr>localName = ''vaadin-grid'', scrollTop = Fin 0, scrollLeft = Fin 0,
     scrollHeight = Fin 400, scrollWidth = Fin 800, offsetHeight = Fin 400, offsetWidth = Fin 800,
     clientHeight = Fin 400, clientWidth = Fin 800, overflow = ''visible'', isThis = True\<rparr>"

definition scrollableDiv :: element where
  "scrollableDiv = \<lparr>localName = ''div'', scrollTop = Fin 0, scrollLeft = Fin 0,
     scrollHeight = Fin 300, scrollWidth = Fin 100, offsetHeight = Fin 100, offsetWidth = Fin 100,
     clientHeight = Fin 100, clientWidth = Fin 100, overflow = ''auto'', isThis = False\<rparr>"

definition cellContent :: element where
  "cellContent = \<lparr>localName = ''vaadin-grid-cell-content'', scrollTop = Fin 0, scrollLeft = Fin 0,
     scrollHeight = Fin 300, scrollWidth = Fin 100, offsetHeight = Fin 100, offsetWidth = Fin 100,
     clientHeight = Fin 100, clientWidth = Fin 100, overflow = ''scroll'', isThis = False\<rparr>"

definition plainSpan :: element where
  "plainSpan = \<lparr>localName = ''span'', scrollTop = Fin 0, scrollLeft = Fin 0,
     scrollHeight = Fin 20, scrollWidth = Fin 100, offsetHeight = Fin 20, offsetWidth = Fin 100,
     clientHeight = Fin 20, clientWidth = Fin 100, overflow = ''visible'', isThis = False\<rparr>"

text \<open>
  A grid on Safari with four rows, the nodes 12, 13, 10 and 11 in document order, whose
  \<open>index\<close> is 90 more than the number of the node; the window starts at 100, so the
  physical order is the logical order rotated by two.
\<close>

definition exampleGrid :: grid where
  "exampleGrid = \<lparr>table = exampleTable, headerClientHeight = Fin 40, footerClientHeight = Fin 30,
     headerTransform = ''translate(0px, 0px)'', items = [12, 13, 10, 11],
     rows = (\<lambda>r. \<lparr>index = 90 + int r, hidden = False\<rparr>),
     scrollLineHeight = getScrollLineHeight ''16px'', scrollPageHeight = None, deltaYAcc = Fin 0,
     wheelAnimationFrame = False, debouncerWheelAnimationFrame = False,
     hasResidualMomentum = False, ignoreNewWheel = False, debouncerIgnoreNewWheel = None,
     previousMomentum = None, mouseDown = False, pendingReorder = False,
     rowWithFocusedElement = None, virtualStart = 60, vidxOffset = 40, safari = True,
     timeouts = [], now = 0, domMoves = 0, scrollHandlerCalls = 0\<rparr>"

text \<open>A wheel event over the grid itself, without the control key.\<close>

definition wheelBy :: "real \<Rightarrow> real \<Rightarrow> nat \<Rightarrow> wheel_event" where
  "wheelBy dx dy mode =
     \<lparr>ctrlKey = False, deltaX = dx, deltaY = dy, deltaMode = mode, target = [exampleHost]\<rparr>"

text \<open>
  The example grid 100 milliseconds after a wheel event of 10 pixels was applied and its
  animation frame has passed.
\<close>

definition coolingGrid :: grid where
  "coolingGrid = elapse 100 (animationFrame (snd (onWheel (wheelBy 0 10 0) exampleGrid)))"

text \<open>The example grid when the geometry probe found no font size.\<close>

definition probeFailedGrid :: grid where
  "probeFailedGrid = exampleGrid\<lparr>scrollLineHeight := getScrollLineHeight []\<rparr>"

text \<open>
  The example grid ten pixels above the bottom, the grid after a wheel event of ten
  pixels took it to the bottom, and a flick of growing deltas that follows.
\<close>

definition nearBottomGrid :: grid where
  "nearBottomGrid = exampleGrid\<lparr>table := exampleTable\<lparr>scrollTop := Fin 590\<rparr>\<rparr>"

definition bottomGrid :: grid where
  "bottomGrid = snd (onWheel (wheelBy 0 10 0) nearBottomGrid)"







text \<open>
  The example grid after the pointer went down on the scroll surface, and a grid
  of two rows in logical order whose focused-row reference is a node that is no longer
  a child of the body.
\<close>

definition draggingGrid :: grid where
  "draggingGrid = onMouseDown exampleGrid"

definition staleFocusGrid :: grid where
  "staleFocusGrid = exampleGrid\<lparr>items := [10, 11], rowWithFocusedElement := Some 12\<rparr>"

text \<open>
  Two more grids whose focused-row reference is a detached node: the four rows in logical
  order with the reference at node 8, and the example grid, its rows rotated by two, with
  the reference at node 9.
\<close>

definition staleSortedGrid :: grid where
  "staleSortedGrid = exampleGrid\<lparr>items := [10, 11, 12, 13], rowWithFocusedElement := Some 8\<rparr>"

definition staleRotatedGrid :: grid where
  "staleRotatedGrid = exampleGrid\<lparr>rowWithFocusedElement := Some 9\<rparr>"

text \<open>
  The example grid after one call of \<open>_reorderRows\<close>, and the example grid in a
  browser other than Safari, before and after one call.
\<close>

definition reorderedGrid :: grid where
  "reorderedGrid = grid_of (reorderRows exampleGrid)"

definition otherBrowserGrid :: grid where
  "otherBrowserGrid = exampleGrid\<lparr>safari := False\<rparr>"

definition otherReorderedGrid :: grid where
  "otherReorderedGrid = grid_of (reorderRows otherBrowserGrid)"

text \<open>The example grid with no row rendered, and with every row hidden.\<close>

definition emptyGrid :: grid where
  "emptyGrid = exampleGrid\<lparr>items := []\<rparr>"

definition allHiddenGrid :: grid where
  "allHiddenGrid = exampleGrid\<lparr>rows := (\<lambda>r. \<lparr>index = 90 + int r, hidden = True\<rparr>)\<rparr>"

lemmas example_defs = exampleTable_def el590_def exampleHost_def scrollableDiv_def cellContent_def
  plainSpan_def exampleGrid_def wheelBy_def probeFailedGrid_def nearBottomGrid_def draggingGrid_def
  onMouseDown_def staleFocusGrid_def emptyGrid_def allHiddenGrid_def

lemmas reorder_defs = reorderRows_def targetRow_def reorderDelta_def safariWorkaround_def
  appendChild_def insertBefore_def Let_def

lemmas wheel_defs = onWheel_def wheelBypassed_def truthy_def Let_def foldedDeltaY_def
  normalizedDeltaY_def momentum_def canScroll_def js_gt_def DOM_DELTA_LINE_def DOM_DELTA_PAGE_def
  scrollHandler_def IGNORE_WHEEL_def

section \<open>Rounding leaves integers alone\<close>

lemma roundHalfEven_of_int: "roundHalfEven (of_int j) = j"
  by (simp add: roundHalfEven_def)

lemma toDouble_of_int:
  assumes "\<bar>k\<bar> < 2 ^ 53"
  shows "toDouble (of_int k) = of_int k"
proof (cases "k = 0")
  case True
  then show ?thesis by (simp add: toDouble_def)
next
  case False
  then have pos: "0 < \<bar>k\<bar>" by simp
  let ?b = "bitlen \<bar>k\<bar>"
  from bitlen_bounds [OF pos] have lo: "2 ^ nat (?b - 1) \<le> \<bar>k\<bar>" and hi: "\<bar>k\<bar> < 2 ^ nat ?b"
    by simp_all
  have b1: "1 \<le> ?b" using pos by (simp add: bitlen_alt_def)
  have "(2::int) ^ nat (?b - 1) < 2 ^ 53" using lo assms by linarith
  then have "nat (?b - 1) < 53"
    using power_strict_increasing_iff [of "2::int" "nat (?b - 1)" 53] by (simp del: power_strict_increasing_iff)
  then have b53: "?b \<le> 53" by linarith
  have a1: "1 \<le> \<bar>real_of_int k\<bar>" using pos by (simp flip: of_int_abs)
  have fl: "\<lfloor>\<bar>real_of_int k\<bar>\<rfloor> = \<bar>k\<bar>" by (simp flip: of_int_abs)
  have bin: "binade (of_int k) = ?b - 1"
    by (simp only: binade_def a1 fl if_True)
  define m where "m = nat (53 - ?b)"
  have e: "max (?b - 1) (- 1022) - 52 = - int m" using b1 b53 by (simp add: m_def)
  have ulp: "pow2 (max (?b - 1) (- 1022) - 52) = 1 / 2 ^ m"
    unfolding e by (cases "m = 0") (simp_all add: pow2_def)
  have r: "roundHalfEven (real_of_int k * 2 ^ m) = k * 2 ^ m"
    using roundHalfEven_of_int [of "k * 2 ^ m"] by simp
  have "toDouble (of_int k) = of_int (roundHalfEven (real_of_int k / (1 / 2 ^ m))) * (1 / 2 ^ m)"
    using False by (simp only: toDouble_def bin ulp Let_def of_int_eq_0_iff if_False)
  then show ?thesis by (simp add: r)
qed

lemma toDouble_numeral: "numeral n < (2::int) ^ 53 \<Longrightarrow> toDouble (numeral n) = numeral n"
  using toDouble_of_int [of "numeral n"] by simp

lemma toDouble_neg_numeral: "numeral n < (2::int) ^ 53 \<Longrightarrow> toDouble (- numeral n) = - numeral n"
  using toDouble_of_int [of "- numeral n"] by simp

lemmas round_simps = toDouble_numeral toDouble_neg_numeral

section \<open>What the timers leave alone\<close>

text \<open>
  Reordering the rows and restoring the header transform write the node list, the move
  counter, the pending flag, the header transform and the list of timeouts, and nothing
  else; so the wheel state survives every callback that passing time runs.
\<close>

lemma appendLoop_wheelState: "wheelState (grid_of (appendLoop its i n s)) = wheelState s"
proof (induction n arbitrary: i s)
  case 0
  show ?case by simp
next
  case (Suc n)
  have "wheelState (appendChild (its ! i) s) = wheelState s"
    by (simp add: appendChild_def wheelState_def)
  with Suc.IH [of "Suc i" "appendChild (its ! i) s"] show ?case by simp
qed

lemma insertLoop_wheelState: "wheelState (grid_of (insertLoop its i n s)) = wheelState s"
proof (induction n arbitrary: i s)
  case 0
  show ?case by simp
next
  case (Suc n)
  have "wheelState (insertBefore (its ! nat i) (its ! 0) s) = wheelState s"
    by (simp add: insertBefore_def Let_def wheelState_def)
  with Suc.IH [of "i + 1" "insertBefore (its ! nat i) (its ! 0) s"] show ?case by simp
qed

lemma safariWorkaround_wheelState: "wheelState (safariWorkaround s) = wheelState s"
  by (simp add: safariWorkaround_def wheelState_def)

lemma finish_wheelState:
  "wheelState (grid_of (case r of Returned s' \<Rightarrow> Returned (safariWorkaround s')
                                | TypeError s' \<Rightarrow> TypeError s')) = wheelState (grid_of r)"
  by (cases r) (simp_all add: safariWorkaround_wheelState)

lemma reorderRows_wheelState: "wheelState (grid_of (reorderRows s)) = wheelState s"
proof (cases "mouseDown s \<or> length (items s) = 0")
  case True
  then show ?thesis by (auto simp: reorderRows_def wheelState_def)
next
  case False
  show ?thesis
  proof (cases "targetRow (items s) s")
    case None
    with False show ?thesis by (simp add: reorderRows_def)
  next
    case (Some t)
    with False show ?thesis
      by (simp add: reorderRows_def Let_def finish_wheelState appendLoop_wheelState
          insertLoop_wheelState)
  qed
qed

lemma runCallback_wheelState: "wheelState (runCallback cb s) = wheelState s"
  by (cases cb) (simp_all add: runCallback_def reorderRows_wheelState, simp add: wheelState_def)

lemma callbacks_wheelState:
  "wheelState (foldl (\<lambda>g (deadline, cb). runCallback cb g) s cbs) = wheelState s"
  by (induction cbs arbitrary: s) (simp_all add: runCallback_wheelState split: prod.splits)

lemma elapse_cooldown:
  assumes "ignoreNewWheel s" "debouncerIgnoreNewWheel s = Some T" "now s + d < T"
  shows "ignoreNewWheel (elapse d s) \<and> debouncerIgnoreNewWheel (elapse d s) = Some T \<and>
    now (elapse d s) = now s + d"
proof -
  have "wheelState (elapse d s) = wheelState (s\<lparr>now := now s + d\<rparr>)"
    using assms by (simp add: elapse_def Let_def callbacks_wheelState) (simp add: wheelState_def)
  with assms show ?thesis by (simp add: wheelState_def)
qed

lemma elapse_expire:
  assumes "debouncerIgnoreNewWheel s = Some T" "T \<le> now s + d"
  shows "\<not> ignoreNewWheel (elapse d s) \<and> debouncerIgnoreNewWheel (elapse d s) = None"
proof -
  have "wheelState (elapse d s) =
      wheelState (s\<lparr>now := now s + d, ignoreNewWheel := False, debouncerIgnoreNewWheel := None\<rparr>)"
    using assms by (simp add: elapse_def Let_def callbacks_wheelState) (simp add: wheelState_def)
  then show ?thesis by (simp add: wheelState_def)
qed



section \<open>Both \<open>for\<close> statements rotate the node list\<close>

lemma appendLoop_rotate:
  "i + n \<le> length its \<Longrightarrow> items s = drop i its @ take i its \<Longrightarrow>
   appendLoop its i n s = Returned (s\<lparr>items := drop (i + n) its @ take (i + n) its, domMoves := domMoves s + n\<rparr>)"
proof (induction n arbitrary: i s)
  case 0
  then show ?case by simp
next
  case (Suc n)
  then have lt: "i < length its" by simp
  let ?s = "appendChild (its ! i) s"
  have d: "drop i its = its ! i # drop (Suc i) its"
    using lt by (simp add: Cons_nth_drop_Suc)
  have it: "items ?s = drop (Suc i) its @ take (Suc i) its"
    using lt by (simp add: appendChild_def Suc.prems(2) d take_Suc_conv_app_nth)
  from Suc.prems have "Suc i + n \<le> length its" by simp
  from Suc.IH [OF this it] lt show ?case
    by (simp add: appendChild_def)
qed

lemma insert_front_step:
  assumes "distinct its" "0 < i0" "i0 + k < length its"
  defines "ys \<equiv> take k (drop i0 its) @ take i0 its @ drop (i0 + k) its"
  defines "x \<equiv> its ! (i0 + k)"
  defines "ref \<equiv> its ! 0"
  shows "x \<noteq> ref"
    and "takeWhile (\<lambda>a. a \<noteq> ref) (remove1 x ys) @ x # dropWhile (\<lambda>a. a \<noteq> ref) (remove1 x ys)
         = take (Suc k) (drop i0 its) @ take i0 its @ drop (i0 + Suc k) its"
proof -
  let ?A = "take k (drop i0 its)"
  let ?B = "take i0 its"
  let ?C = "drop (Suc (i0 + k)) its"
  have "0 < length its" using assms(3) by linarith
  then show ne: "x \<noteq> ref"
    unfolding x_def ref_def
    using assms(1,2,3) nth_eq_iff_index_eq [of its "i0 + k" 0] by simp
  have dr: "drop (i0 + k) its = x # ?C"
    using assms(3) unfolding x_def by (simp add: Cons_nth_drop_Suc)
  have dist: "set ?B \<inter> set (drop i0 its) = {}"
    using assms(1) by (simp add: set_take_disj_set_drop_if_distinct)
  have dk: "drop i0 its ! k = x" unfolding x_def using assms(3) by simp
  have kl: "k < length (drop i0 its)" using assms(3) by simp
  have xD: "x \<in> set (drop i0 its)"
    using nth_mem [OF kl] dk by simp
  have xB: "x \<notin> set ?B" using dist xD by auto
  have xA: "x \<notin> set ?A"
  proof
    assume "x \<in> set ?A"
    then obtain j where j: "j < length ?A" "?A ! j = x"
      by (auto simp: in_set_conv_nth)
    then have jk: "j < k" by simp
    with j have "drop i0 its ! j = drop i0 its ! k" using dk by simp
    moreover have "distinct (drop i0 its)" using assms(1) by simp
    ultimately have "j = k"
      using kl jk nth_eq_iff_index_eq [of "drop i0 its" j k] by simp
    with jk show False by simp
  qed
  have rm: "remove1 x ys = ?A @ ?B @ ?C"
    unfolding ys_def using xA xB by (simp add: remove1_append dr)
  have B: "?B = ref # take (i0 - 1) (tl its)"
    using assms(2,3) unfolding ref_def
    by (cases its; cases i0) simp_all
  have refA: "\<forall>a \<in> set ?A. a \<noteq> ref"
  proof -
    have "ref \<in> set ?B" by (subst B) simp
    moreover have "set ?A \<subseteq> set (drop i0 its)" by (rule set_take_subset)
    ultimately show ?thesis using dist by auto
  qed
  have tw: "takeWhile (\<lambda>a. a \<noteq> ref) (remove1 x ys) = ?A"
    unfolding rm using refA by (simp add: B)
  have dw: "dropWhile (\<lambda>a. a \<noteq> ref) (remove1 x ys) = ?B @ ?C"
    unfolding rm using refA by (simp add: B)
  have tk: "take (Suc k) (drop i0 its) = ?A @ [x]"
    unfolding x_def using assms(3) by (simp add: take_Suc_conv_app_nth)
  show "takeWhile (\<lambda>a. a \<noteq> ref) (remove1 x ys) @ x # dropWhile (\<lambda>a. a \<noteq> ref) (remove1 x ys)
         = take (Suc k) (drop i0 its) @ take i0 its @ drop (i0 + Suc k) its"
    by (simp add: tw dw tk)
qed

lemma insertLoop_front:
  "distinct its \<Longrightarrow> 0 < i0 \<Longrightarrow> i0 + k + n = length its \<Longrightarrow>
   items s = take k (drop i0 its) @ take i0 its @ drop (i0 + k) its \<Longrightarrow>
   insertLoop its (int (i0 + k)) n s =
     Returned (s\<lparr>items := drop i0 its @ take i0 its, domMoves := domMoves s + n\<rparr>)"
proof (induction n arbitrary: k s)
  case 0
  then have "items s = drop i0 its @ take i0 its" by simp
  then show ?case by simp
next
  case (Suc n)
  then have lt: "i0 + k < length its" by simp
  let ?x = "its ! (i0 + k)"
  let ?s = "insertBefore ?x (its ! 0) s"
  from insert_front_step [OF Suc.prems(1,2) lt]
  have ne: "?x \<noteq> its ! 0"
    and st: "takeWhile (\<lambda>a. a \<noteq> its ! 0) (remove1 ?x (items s)) @ ?x # dropWhile (\<lambda>a. a \<noteq> its ! 0) (remove1 ?x (items s))
         = take (Suc k) (drop i0 its) @ take i0 its @ drop (i0 + Suc k) its"
    unfolding Suc.prems(4) by simp_all
  have it: "items ?s = take (Suc k) (drop i0 its) @ take i0 its @ drop (i0 + Suc k) its"
    using ne st by (simp add: insertBefore_def Let_def)
  from Suc.prems have "i0 + Suc k + n = length its" by simp
  from Suc.IH [OF Suc.prems(1,2) this it]
  have r: "insertLoop its (int (i0 + Suc k)) n ?s =
      Returned (?s\<lparr>items := drop i0 its @ take i0 its, domMoves := domMoves ?s + n\<rparr>)" .
  have c: "0 \<le> int (i0 + k) \<and> int (i0 + k) < int (length its)" using lt by simp
  have "insertLoop its (int (i0 + k)) (Suc n) s =
      insertLoop its (int (i0 + k) + 1) n (insertBefore (its ! nat (int (i0 + k))) (its ! 0) s)"
    using c by (simp del: of_nat_add of_nat_Suc)
  also have "int (i0 + k) + 1 = int (i0 + Suc k)" by simp
  also have "nat (int (i0 + k)) = i0 + k" by (rule nat_int)
  finally have "insertLoop its (int (i0 + k)) (Suc n) s =
      Returned (?s\<lparr>items := drop i0 its @ take i0 its, domMoves := domMoves ?s + n\<rparr>)"
    using r by simp
  moreover have "?s\<lparr>items := drop i0 its @ take i0 its, domMoves := domMoves ?s + n\<rparr> =
      s\<lparr>items := drop i0 its @ take i0 its, domMoves := domMoves s + Suc n\<rparr>"
    by (simp add: insertBefore_def Let_def)
  ultimately show ?case by simp
qed

lemma indexOf_nth: "distinct xs \<Longrightarrow> p < length xs \<Longrightarrow> indexOf xs (xs ! p) = int p"
proof (induction xs arbitrary: p)
  case Nil
  then show ?case by simp
next
  case (Cons y ys)
  show ?case
  proof (cases p)
    case 0
    then show ?thesis by simp
  next
    case (Suc q)
    with Cons.prems have q: "q < length ys" "distinct ys" "ys ! q \<in> set ys" "y \<notin> set ys" by simp_all
    then have "y \<noteq> ys ! q" by auto
    with Cons.IH [OF q(2,1)] Suc show ?thesis by (simp add: Let_def)
  qed
qed

lemma distinct_logicalOrder: "distinct (logicalOrder s)"
  unfolding logicalOrder_def by (simp add: distinct_map inj_on_def)

lemma rotation_distinct:
  assumes "physicalOrder s = rotate k (logicalOrder s)"
  shows "distinct (items s)"
proof -
  have "distinct (physicalOrder s)" using assms distinct_logicalOrder by simp
  then show ?thesis unfolding physicalOrder_def by (simp add: distinct_map)
qed

lemma reorderDelta_sorted:
  assumes "physicalOrder s = logicalOrder s" "t \<in> set (items s)"
  shows "reorderDelta (items s) t s = 0"
proof -
  from assms(2) obtain p where p: "p < length (items s)" "items s ! p = t"
    by (auto simp: in_set_conv_nth)
  have d: "distinct (items s)" using rotation_distinct [of s 0] assms(1) by simp
  have "index (rows s t) = physicalOrder s ! p"
    using p unfolding physicalOrder_def by simp
  also have "\<dots> = virtualStart s + vidxOffset s + int p"
    using p unfolding assms(1) logicalOrder_def by simp
  finally show ?thesis
    using indexOf_nth [OF d p(1)] p(2) by (simp add: reorderDelta_def Let_def)
qed

lemma reorderDelta_rotated:
  assumes "physicalOrder s = rotate k (logicalOrder s)" "p < length (items s)"
  shows "reorderDelta (items s) (items s ! p) s = int p - int ((k + p) mod length (items s))"
proof -
  have d: "distinct (items s)" using rotation_distinct [OF assms(1)] .
  have l: "length (logicalOrder s) = length (items s)" by (simp add: logicalOrder_def)
  have "index (rows s (items s ! p)) = physicalOrder s ! p"
    using assms(2) unfolding physicalOrder_def by simp
  also have "\<dots> = logicalOrder s ! ((k + p) mod length (items s))"
    unfolding assms(1) using assms(2) l by (simp add: nth_rotate)
  also have "\<dots> = virtualStart s + vidxOffset s + int ((k + p) mod length (items s))"
  proof -
    have "0 < length (items s)" using assms(2) by linarith
    then have "(k + p) mod length (items s) < length (items s)" by simp
    then show ?thesis unfolding logicalOrder_def by simp
  qed
  finally show ?thesis
    using indexOf_nth [OF d assms(2)] by (simp add: reorderDelta_def Let_def)
qed

lemma rotate_back:
  assumes "xs = rotate k base" "(r + k) mod length base = 0"
  shows "rotate r xs = base"
  using assms by (simp add: rotate_rotate)

lemma reorderRows_rotated:
  assumes md: "\<not> mouseDown s"
    and rot: "physicalOrder s = rotate k (logicalOrder s)"
    and tgt: "targetRow (items s) s = Some t"
    and tin: "t \<in> set (items s)"
  obtains r where "reorderRows s = Returned (safariWorkaround
            (s\<lparr>items := rotate r (items s),
               domMoves := domMoves s + nat \<bar>reorderDelta (items s) t s\<bar>\<rparr>))"
    and "(r + k) mod length (items s) = 0"
proof -
  let ?its = "items s"
  let ?N = "length ?its"
  from tin obtain p where p: "p < ?N" "?its ! p = t"
    by (auto simp: in_set_conv_nth)
  have ne: "?its \<noteq> []" using tin by auto
  have d: "distinct ?its" using rotation_distinct [OF rot] .
  define q where "q = (k + p) mod ?N"
  define c where "c = (k + p) div ?N"
  have Npos: "0 < ?N" using p(1) by linarith
  have q: "q < ?N" unfolding q_def using Npos by simp
  have kp: "k + p = ?N * c + q" unfolding q_def c_def by simp
  have delta: "reorderDelta ?its t s = int p - int q"
    using reorderDelta_rotated [OF rot p(1)] p(2) unfolding q_def by simp
  consider (fwd) "q < p" | (bwd) "p < q" | (same) "p = q" by linarith
  then show ?thesis
  proof cases
    case fwd
    let ?d = "p - q"
    have dN: "0 + ?d \<le> ?N" using p(1) by simp
    have "appendLoop ?its 0 ?d s =
        Returned (s\<lparr>items := drop (0 + ?d) ?its @ take (0 + ?d) ?its, domMoves := domMoves s + ?d\<rparr>)"
      by (rule appendLoop_rotate [OF dN]) simp
    moreover have "drop ?d ?its @ take ?d ?its = rotate ?d ?its"
      using p(1) by (simp add: rotate_drop_take)
    moreover have "nat (int p - int q) = ?d" "nat \<bar>int p - int q\<bar> = ?d" using fwd by simp_all
    ultimately have R: "reorderRows s = Returned (safariWorkaround
            (s\<lparr>items := rotate ?d ?its, domMoves := domMoves s + nat \<bar>reorderDelta ?its t s\<bar>\<rparr>))"
      using md ne tgt fwd by (simp add: reorderRows_def Let_def delta)
    have "?d + k = ?N * c" using kp fwd by simp
    then have "(?d + k) mod ?N = 0" by simp
    with R show ?thesis by (rule that)
  next
    case bwd
    let ?d = "q - p"
    let ?i0 = "?N - ?d"
    have i0: "0 < ?i0" using q bwd by simp
    have sum: "?i0 + 0 + ?d = ?N" using q bwd by simp
    have "insertLoop ?its (int (?i0 + 0)) ?d s =
        Returned (s\<lparr>items := drop ?i0 ?its @ take ?i0 ?its, domMoves := domMoves s + ?d\<rparr>)"
      by (rule insertLoop_front [OF d i0 sum]) simp
    moreover have "drop ?i0 ?its @ take ?i0 ?its = rotate ?i0 ?its"
      using i0 q bwd by (simp add: rotate_drop_take)
    moreover have "nat (- (int p - int q)) = ?d" "nat \<bar>int p - int q\<bar> = ?d" using bwd by simp_all
    moreover have "int ?N + (int p - int q) = int (?i0 + 0)" using q bwd by simp
    ultimately have R: "reorderRows s = Returned (safariWorkaround
            (s\<lparr>items := rotate ?i0 ?its, domMoves := domMoves s + nat \<bar>reorderDelta ?its t s\<bar>\<rparr>))"
      using md ne tgt bwd by (simp add: reorderRows_def Let_def delta)
    have "?i0 + k = ?N * (c + 1)" using kp bwd q by simp
    then have "(?i0 + k) mod ?N = 0" by (metis mod_mult_self1_is_0)
    with R show ?thesis by (rule that)
  next
    case same
    have R: "reorderRows s = Returned (safariWorkaround
            (s\<lparr>items := rotate 0 ?its, domMoves := domMoves s + nat \<bar>reorderDelta ?its t s\<bar>\<rparr>))"
      using md ne tgt same by (simp add: reorderRows_def Let_def delta)
    have "0 + k = ?N * c" using kp same by simp
    then have "(0 + k) mod ?N = 0" by simp
    with R show ?thesis by (rule that)
  qed
qed

lemma targetRow_after:
  assumes "targetRow its s = Some t" "t \<in> set its" "set its' = set its"
    "rowWithFocusedElement s' = rowWithFocusedElement s" "rows s' = rows s"
  shows "\<exists>t'. targetRow its' s' = Some t' \<and> t' \<in> set its'"
proof (cases "rowWithFocusedElement s")
  case (Some r)
  with assms show ?thesis by (simp add: targetRow_def)
next
  case None
  let ?P = "\<lambda>r. \<not> hidden (rows s r)"
  from None assms(1) have "filter ?P its \<noteq> []"
    by (auto simp: targetRow_def split: list.splits)
  then have "set (filter ?P its') \<noteq> {}" using assms(3) by (auto simp: filter_empty_conv)
  then obtain x xs where x: "filter ?P its' = x # xs" by (cases "filter ?P its'") auto
  then have "x \<in> set (filter ?P its')" by simp
  then have "x \<in> set its'" by simp
  with x None assms(4,5) show ?thesis by (simp add: targetRow_def)
qed

lemma safariWorkaround_fields:
  "items (safariWorkaround s) = items s" "domMoves (safariWorkaround s) = domMoves s"
  "rows (safariWorkaround s) = rows s" "mouseDown (safariWorkaround s) = mouseDown s"
  "rowWithFocusedElement (safariWorkaround s) = rowWithFocusedElement s"
  "virtualStart (safariWorkaround s) = virtualStart s" "vidxOffset (safariWorkaround s) = vidxOffset s"
  "headerTransform (safariWorkaround (safariWorkaround s)) = headerTransform (safariWorkaround s)"
  by (simp_all add: safariWorkaround_def)

lemma reorderRows_sorted:
  assumes "\<not> mouseDown s" "physicalOrder s = logicalOrder s"
    "targetRow (items s) s = Some t" "t \<in> set (items s)"
  shows "reorderRows s = Returned (safariWorkaround s)"
proof -
  have "items s \<noteq> []" using assms(4) by auto
  moreover have "reorderDelta (items s) t s = 0" using reorderDelta_sorted [OF assms(2,4)] .
  ultimately show ?thesis using assms(1,3) by (simp add: reorderRows_def Let_def)
qed

section \<open>The example grids, evaluated\<close>

lemma coolingGrid_eq:
  "coolingGrid = exampleGrid\<lparr>table := exampleTable\<lparr>scrollTop := Fin 10\<rparr>,
     wheelAnimationFrame := False, debouncerWheelAnimationFrame := False,
     hasResidualMomentum := True, ignoreNewWheel := True, debouncerIgnoreNewWheel := Some 500,
     previousMomentum := Some (Fin 10), scrollHandlerCalls := 1, now := 100\<rparr>"
  by (simp add: coolingGrid_def wheel_defs example_defs animationFrame_def elapse_def round_simps)

lemma bottomGrid_eq:
  "bottomGrid = exampleGrid\<lparr>table := exampleTable\<lparr>scrollTop := Fin 600\<rparr>,
     wheelAnimationFrame := True, debouncerWheelAnimationFrame := True,
     hasResidualMomentum := True, ignoreNewWheel := True, debouncerIgnoreNewWheel := Some 500,
     previousMomentum := Some (Fin 10), scrollHandlerCalls := 1\<rparr>"
  by (simp add: bottomGrid_def wheel_defs example_defs round_simps)








lemma wheelBy_not_bypassed: "\<not> wheelBypassed (wheelBy dx dy m)"
  by (simp add: wheel_defs example_defs)

lemma reorderedGrid_eq:
  "reorderedGrid = exampleGrid\<lparr>headerTransform := [], items := [10, 11, 12, 13],
     timeouts := [(0, RestoreHeaderTransform ''translate(0px, 0px)'')], domMoves := 2\<rparr>"
  unfolding reorderedGrid_def by (simp add: reorder_defs example_defs eval_nat_numeral)

lemma otherReorderedGrid_eq:
  "otherReorderedGrid = otherBrowserGrid\<lparr>items := [10, 11, 12, 13], domMoves := 2\<rparr>"
  unfolding otherReorderedGrid_def otherBrowserGrid_def
  by (simp add: reorder_defs example_defs eval_nat_numeral)

lemma reorderRows_reorderedGrid:
  "reorderRows reorderedGrid = Returned (reorderedGrid\<lparr>timeouts :=
      [(0, RestoreHeaderTransform ''translate(0px, 0px)''), (0, RestoreHeaderTransform [])]\<rparr>)"
  unfolding reorderedGrid_eq by (simp add: reorder_defs example_defs eval_nat_numeral)

lemma header_after_one_call: "headerTransform (elapse 0 reorderedGrid) = ''translate(0px, 0px)''"
  unfolding reorderedGrid_eq by (simp add: elapse_def runCallback_def example_defs)

lemma header_after_two_calls: "headerTransform (elapse 0 (grid_of (reorderRows reorderedGrid))) = []"
  unfolding reorderRows_reorderedGrid unfolding reorderedGrid_eq
  by (simp add: elapse_def runCallback_def example_defs)

lemma reorderRows_reorderedGrid_changes: "reorderRows reorderedGrid \<noteq> Returned reorderedGrid"
proof
  assume "reorderRows reorderedGrid = Returned reorderedGrid"
  then have "timeouts (grid_of (reorderRows reorderedGrid)) = timeouts reorderedGrid" by simp
  then show False unfolding reorderRows_reorderedGrid unfolding reorderedGrid_eq by simp
qed

section \<open>The capacity test\<close>

text \<open>
  Claim C1, as amended. The capacity test depends on the scroll metrics of the element
  only, and it measures the viewport by \<open>offsetHeight\<close> and \<open>offsetWidth\<close>: it
  holds exactly if the vertical delta is positive and \<open>scrollTop\<close> is below
  \<open>scrollHeight - offsetHeight\<close>, or the vertical delta is negative and \<open>scrollTop\<close>
  is positive, or the horizontal delta is positive and \<open>scrollLeft\<close> is below
  \<open>scrollWidth - offsetWidth\<close>, or the horizontal delta is negative and
  \<open>scrollLeft\<close> is positive. For an element at \<open>scrollTop = 0\<close> with
  \<open>scrollHeight = 1000\<close> and \<open>clientHeight = 400\<close> and a delta of \<open>-50\<close>
  along the vertical axis alone it is false.
\<close>

theorem canScroll_offset_metrics:
  "(scrollTop el = Fin st \<longrightarrow> scrollLeft el = Fin sl \<longrightarrow> scrollHeight el = Fin sh \<longrightarrow>
    scrollWidth el = Fin sw \<longrightarrow> offsetHeight el = Fin oh \<longrightarrow> offsetWidth el = Fin ow \<longrightarrow>
      canScroll el (Fin dx) (Fin dy) =
        ((0 < dy \<and> st < sh - oh) \<or> (dy < 0 \<and> 0 < st) \<or>
         (0 < dx \<and> sl < sw - ow) \<or> (dx < 0 \<and> 0 < sl))) \<and>
   (scrollTop el = Fin 0 \<longrightarrow> scrollHeight el = Fin 1000 \<longrightarrow> clientHeight el = Fin 400 \<longrightarrow>
      \<not> canScroll el (Fin 0) (Fin (- 50)))"
  by (simp add: canScroll_def js_gt_def)

theorem canScroll_offset_metrics_witness:
  "scrollTop el590 = Fin 590 \<and> scrollLeft el590 = Fin 0 \<and> scrollHeight el590 = Fin 1000 \<and>
   scrollWidth el590 = Fin 1200 \<and> offsetHeight el590 = Fin 417 \<and> offsetWidth el590 = Fin 800 \<and>
   \<not> canScroll el590 (Fin 0) (Fin 1) \<and> canScroll el590 (Fin 1) (Fin 0) \<and>
   scrollTop exampleTable = Fin 0 \<and> scrollHeight exampleTable = Fin 1000 \<and>
   clientHeight exampleTable = Fin 400 \<and> \<not> canScroll exampleTable (Fin 0) (Fin (- 50))"
proof -
  have h: "scrollTop el590 = Fin 590" "scrollLeft el590 = Fin 0" "scrollHeight el590 = Fin 1000"
    "scrollWidth el590 = Fin 1200" "offsetHeight el590 = Fin 417" "offsetWidth el590 = Fin 800"
    by (simp_all add: el590_def)
  have g: "scrollTop exampleTable = Fin 0" "scrollHeight exampleTable = Fin 1000"
    "clientHeight exampleTable = Fin 400"
    by (simp_all add: exampleTable_def)
  note a = canScroll_offset_metrics [where el = el590, THEN conjunct1, rule_format, OF h]
  note b = canScroll_offset_metrics [where el = exampleTable, THEN conjunct2, rule_format, OF g]
  from a [of 0 1] a [of 1 0] b h g show ?thesis by simp
qed

text \<open>
  Claim C1 as the specification words it, with \<open>clientHeight\<close>, fails on the surface
  with a horizontal scroll bar: at \<open>scrollTop = 590\<close> the specification's test finds
  room below (\<open>590 < 1000 - 400\<close>) where the code finds none (\<open>590 < 1000 - 417\<close>
  is false).
\<close>

theorem capacity_spec_counterexample:
  "capacity_spec el590 (Fin 0) (Fin 1) \<noteq> canScroll el590 (Fin 0) (Fin 1)"
  by (simp add: capacity_spec_def canScroll_def js_gt_def el590_def)

section \<open>Where the ancestor probe stops\<close>

lemma hasScrolledAncestor_reaches_boundary:
  "localName b = ''vaadin-grid-cell-content'' \<Longrightarrow>
   (\<forall>a \<in> set pre. localName a \<noteq> ''vaadin-grid-cell-content'' \<and>
        \<not> (canScroll a dx dy \<and> overflow a \<in> set [''auto'', ''scroll'']) \<and> \<not> isThis a) \<Longrightarrow>
   hasScrolledAncestor (pre @ b # post) dx dy = Some False"
  by (induction pre) auto

lemma hasScrolledAncestor_true_source:
  "hasScrolledAncestor els dx dy = Some True \<Longrightarrow>
   \<exists>pre a post. els = pre @ a # post \<and> canScroll a dx dy \<and> overflow a \<in> set [''auto'', ''scroll''] \<and>
      (\<forall>x \<in> set (pre @ [a]). localName x \<noteq> ''vaadin-grid-cell-content'')"
proof (induction els)
  case Nil
  then show ?case by simp
next
  case (Cons el parents)
  show ?case
  proof (cases "canScroll el dx dy \<and> overflow el \<in> set [''auto'', ''scroll'']")
    case True
    with Cons.prems have "localName el \<noteq> ''vaadin-grid-cell-content''"
      by (auto split: if_splits)
    with True have "el # parents = [] @ el # parents \<and> canScroll el dx dy \<and>
        overflow el \<in> set [''auto'', ''scroll''] \<and>
        (\<forall>x \<in> set ([] @ [el]). localName x \<noteq> ''vaadin-grid-cell-content'')"
      by simp
    then show ?thesis by blast
  next
    case False
    with Cons.prems have ne: "localName el \<noteq> ''vaadin-grid-cell-content''"
      and rec: "hasScrolledAncestor parents dx dy = Some True"
      by (auto split: if_splits)
    from Cons.IH [OF rec] obtain pre a post where
      h: "parents = pre @ a # post" "canScroll a dx dy" "overflow a \<in> set [''auto'', ''scroll'']"
         "\<forall>x \<in> set (pre @ [a]). localName x \<noteq> ''vaadin-grid-cell-content''"
      by blast
    with ne have "el # parents = (el # pre) @ a # post \<and> canScroll a dx dy \<and>
        overflow a \<in> set [''auto'', ''scroll''] \<and>
        (\<forall>x \<in> set ((el # pre) @ [a]). localName x \<noteq> ''vaadin-grid-cell-content'')"
      by simp
    then show ?thesis by blast
  qed
qed

text \<open>
  Claim C9. When the walk from the event target reaches the cell-content element, that
  is when no element before it was a cell-content element, was the grid, or had both
  capacity for the delta and an overflow of \<open>auto\<close> or \<open>scroll\<close>, the probe returns
  false, whatever the capacity and overflow of the cell-content element itself. When
  the probe returns true, some element of the chain has capacity for the delta and an
  overflow of \<open>auto\<close> or \<open>scroll\<close>, and neither it nor any element before it is a
  cell-content element.
\<close>

theorem ancestor_probe_stops_at_cell_content:
  "(localName b = ''vaadin-grid-cell-content'' \<longrightarrow>
      (\<forall>a \<in> set pre. localName a \<noteq> ''vaadin-grid-cell-content'' \<and>
          \<not> (canScroll a dx dy \<and> overflow a \<in> set [''auto'', ''scroll'']) \<and> \<not> isThis a) \<longrightarrow>
      hasScrolledAncestor (pre @ b # post) dx dy = Some False) \<and>
   (hasScrolledAncestor els dx dy = Some True \<longrightarrow>
      (\<exists>before a after. els = before @ a # after \<and>
          canScroll a dx dy \<and> overflow a \<in> set [''auto'', ''scroll''] \<and>
          (\<forall>x \<in> set (before @ [a]). localName x \<noteq> ''vaadin-grid-cell-content'')))"
  using hasScrolledAncestor_reaches_boundary [of b pre dx dy post]
    hasScrolledAncestor_true_source [of els dx dy]
  by blast

theorem ancestor_probe_stops_at_cell_content_witness:
  "localName cellContent = ''vaadin-grid-cell-content'' \<and>
   localName plainSpan \<noteq> ''vaadin-grid-cell-content'' \<and>
   \<not> (canScroll plainSpan (Fin 0) (Fin 10) \<and> overflow plainSpan \<in> set [''auto'', ''scroll'']) \<and>
   \<not> isThis plainSpan \<and>
   canScroll cellContent (Fin 0) (Fin 10) \<and> overflow cellContent = ''scroll'' \<and>
   hasScrolledAncestor ([plainSpan] @ cellContent # [exampleHost]) (Fin 0) (Fin 10) = Some False \<and>
   hasScrolledAncestor [plainSpan, scrollableDiv, cellContent, exampleHost] (Fin 0) (Fin 10) = Some True \<and>
   (\<exists>before a after. [plainSpan, scrollableDiv, cellContent, exampleHost] = before @ a # after \<and>
       canScroll a (Fin 0) (Fin 10) \<and> overflow a \<in> set [''auto'', ''scroll''] \<and>
       (\<forall>x \<in> set (before @ [a]). localName x \<noteq> ''vaadin-grid-cell-content''))"
proof -
  have h1: "localName cellContent = ''vaadin-grid-cell-content''"
    by (simp add: cellContent_def)
  have h2: "\<forall>a \<in> set [plainSpan]. localName a \<noteq> ''vaadin-grid-cell-content'' \<and>
       \<not> (canScroll a (Fin 0) (Fin 10) \<and> overflow a \<in> set [''auto'', ''scroll'']) \<and> \<not> isThis a"
    by (simp add: plainSpan_def canScroll_def js_gt_def)
  have h3: "canScroll cellContent (Fin 0) (Fin 10)" "overflow cellContent = ''scroll''"
    by (simp_all add: cellContent_def canScroll_def js_gt_def)
  have h4: "hasScrolledAncestor [plainSpan, scrollableDiv, cellContent, exampleHost] (Fin 0) (Fin 10) = Some True"
    by (simp add: plainSpan_def scrollableDiv_def canScroll_def js_gt_def)
  note t = ancestor_probe_stops_at_cell_content [where b = cellContent and pre = "[plainSpan]"
      and dx = "Fin 0" and dy = "Fin 10" and post = "[exampleHost]"
      and els = "[plainSpan, scrollableDiv, cellContent, exampleHost]"]
  from t h1 h2 have a: "hasScrolledAncestor ([plainSpan] @ cellContent # [exampleHost]) (Fin 0) (Fin 10) = Some False"
    by blast
  from t h4 have b: "\<exists>before a after. [plainSpan, scrollableDiv, cellContent, exampleHost] = before @ a # after \<and>
       canScroll a (Fin 0) (Fin 10) \<and> overflow a \<in> set [''auto'', ''scroll''] \<and>
       (\<forall>x \<in> set (before @ [a]). localName x \<noteq> ''vaadin-grid-cell-content'')"
    by blast
  have h2': "localName plainSpan \<noteq> ''vaadin-grid-cell-content''"
    "\<not> (canScroll plainSpan (Fin 0) (Fin 10) \<and> overflow plainSpan \<in> set [''auto'', ''scroll''])"
    "\<not> isThis plainSpan"
    using h2 by simp_all
  from h1 h2' h3 h4 a b show ?thesis by (intro conjI)
qed

section \<open>Page height\<close>

text \<open>
  Claim C7. The observer of the viewport height, which runs with the new value at each
  change, sets the page height to the viewport height minus the client heights of
  header and footer minus the line height, and a wheel event in page mode is scaled by
  it. With a viewport height of 600, a header of 40, a footer of 30 and a line height of
  16 the page height is 514, and a page-mode event with a raw vertical delta of 1
  becomes a delta of 514 pixels.
\<close>

theorem page_height_and_page_mode_delta:
  "(headerClientHeight s = Fin h \<longrightarrow> footerClientHeight s = Fin f \<longrightarrow>
    scrollLineHeight s = Some (Fin l) \<longrightarrow>
      scrollPageHeight (scrollViewportHeightUpdated (Fin vh) s) = Some (Fin (vh - h - f - l)) \<and>
      (deltaMode e = DOM_DELTA_PAGE \<longrightarrow>
         normalizedDeltaY e (scrollViewportHeightUpdated (Fin vh) s) = Fin (deltaY e * (vh - h - f - l)))) \<and>
   (headerClientHeight s = Fin 40 \<longrightarrow> footerClientHeight s = Fin 30 \<longrightarrow>
    scrollLineHeight s = Some (Fin 16) \<longrightarrow> deltaMode e = DOM_DELTA_PAGE \<longrightarrow> deltaY e = 1 \<longrightarrow>
      scrollPageHeight (scrollViewportHeightUpdated (Fin 600) s) = Some (Fin 514) \<and>
      normalizedDeltaY e (scrollViewportHeightUpdated (Fin 600) s) = Fin 514)"
  by (simp add: scrollViewportHeightUpdated_def normalizedDeltaY_def DOM_DELTA_PAGE_def DOM_DELTA_LINE_def)

theorem page_height_and_page_mode_delta_witness:
  "headerClientHeight exampleGrid = Fin 40 \<and> footerClientHeight exampleGrid = Fin 30 \<and>
   scrollLineHeight exampleGrid = Some (Fin 16) \<and>
   deltaMode (wheelBy 0 1 DOM_DELTA_PAGE) = DOM_DELTA_PAGE \<and> deltaY (wheelBy 0 1 DOM_DELTA_PAGE) = 1 \<and>
   scrollPageHeight (scrollViewportHeightUpdated (Fin 600) exampleGrid) = Some (Fin 514) \<and>
   normalizedDeltaY (wheelBy 0 1 DOM_DELTA_PAGE) (scrollViewportHeightUpdated (Fin 600) exampleGrid) = Fin 514 \<and>
   scrollPageHeight (scrollViewportHeightUpdated (Fin 700) (scrollViewportHeightUpdated (Fin 600) exampleGrid))
     = Some (Fin (700 - 40 - 30 - 16)) \<and>
   scrollTop (table (snd (onWheel (wheelBy 0 1 DOM_DELTA_PAGE)
     (scrollViewportHeightUpdated (Fin 600) exampleGrid)))) = Fin 514"
proof -
  have h: "headerClientHeight exampleGrid = Fin 40" "footerClientHeight exampleGrid = Fin 30"
    "scrollLineHeight exampleGrid = Some (Fin 16)"
    by (simp_all add: exampleGrid_def getScrollLineHeight_def parseInt_def is_digit_def digits_value_def)
  have e: "deltaMode (wheelBy 0 1 DOM_DELTA_PAGE) = DOM_DELTA_PAGE" "deltaY (wheelBy 0 1 DOM_DELTA_PAGE) = 1"
    by (simp_all add: wheelBy_def)
  have h': "headerClientHeight (scrollViewportHeightUpdated (Fin 600) exampleGrid) = Fin 40"
    "footerClientHeight (scrollViewportHeightUpdated (Fin 600) exampleGrid) = Fin 30"
    "scrollLineHeight (scrollViewportHeightUpdated (Fin 600) exampleGrid) = Some (Fin 16)"
    using h by (simp_all add: scrollViewportHeightUpdated_def)
  note a = page_height_and_page_mode_delta [where s = exampleGrid and e = "wheelBy 0 1 DOM_DELTA_PAGE",
      THEN conjunct2, rule_format, OF h e]
  note b = page_height_and_page_mode_delta [where s = "scrollViewportHeightUpdated (Fin 600) exampleGrid"
      and h = 40 and f = 30 and l = 16 and vh = 700, THEN conjunct1, rule_format, OF h', THEN conjunct1]
  have c: "scrollTop (table (snd (onWheel (wheelBy 0 1 DOM_DELTA_PAGE)
     (scrollViewportHeightUpdated (Fin 600) exampleGrid)))) = Fin 514"
    by (simp add: wheel_defs example_defs scrollViewportHeightUpdated_def getScrollLineHeight_def
        parseInt_def is_digit_def digits_value_def)
  from h e a b c show ?thesis by (intro conjI) simp_all
qed

section \<open>A failed geometry probe\<close>

lemma canScroll_nan:
  "canScroll el dx NaN =
     ((js_gt dx (Fin 0) \<and> js_lt (scrollLeft el) (js_sub (scrollWidth el) (offsetWidth el))) \<or>
      (js_lt dx (Fin 0) \<and> js_gt (scrollLeft el) (Fin 0)))"
  by (simp add: canScroll_def js_gt_def)

lemma js_add_nan: "js_add NaN x = NaN" "js_add x NaN = NaN"
  by (cases x, simp_all)+

lemma line_mode_nan:
  assumes "scrollLineHeight s = None" "deltaMode e = DOM_DELTA_LINE"
  shows "normalizedDeltaY e s = NaN" "foldedDeltaY e s = NaN" "momentum e s = NaN"
  using assms by (simp_all add: normalizedDeltaY_def foldedDeltaY_def momentum_def js_add_nan)

text \<open>
  Claim C4, as amended. When the geometry probe found no font size, the line height is
  \<open>undefined\<close> and the scaling of a line-mode delta has no guard: the vertical delta
  becomes not-a-number. A not-a-number vertical delta gives the scroll surface no
  capacity by itself; so when the horizontal delta of the event finds no capacity (as a
  horizontal delta of zero never does) and no animation frame is pending, the handler
  leaves the scroll surface as it is, and outside the cooldown it does not mark the
  event handled.
\<close>

theorem line_mode_without_line_height_is_nan:
  "scrollLineHeight s = None \<longrightarrow> deltaMode e = DOM_DELTA_LINE \<longrightarrow>
     normalizedDeltaY e s = NaN \<and> foldedDeltaY e s = NaN \<and>
     \<not> canScroll (table s) (Fin 0) (foldedDeltaY e s) \<and>
     (\<not> wheelBypassed e \<longrightarrow> \<not> wheelAnimationFrame s \<longrightarrow>
      \<not> canScroll (table s) (Fin (deltaX e)) (foldedDeltaY e s) \<longrightarrow>
        table (snd (onWheel e s)) = table s \<and>
        (\<not> ignoreNewWheel s \<longrightarrow> \<not> fst (onWheel e s)))"
proof (intro impI)
  assume a: "scrollLineHeight s = None" "deltaMode e = DOM_DELTA_LINE"
  note n = line_mode_nan [OF a]
  have c: "\<not> canScroll (table s) (Fin 0) (foldedDeltaY e s)"
    by (simp add: n canScroll_nan js_gt_def)
  have d: "\<not> wheelBypassed e \<longrightarrow> \<not> wheelAnimationFrame s \<longrightarrow>
      \<not> canScroll (table s) (Fin (deltaX e)) (foldedDeltaY e s) \<longrightarrow>
        table (snd (onWheel e s)) = table s \<and>
        (\<not> ignoreNewWheel s \<longrightarrow> \<not> fst (onWheel e s))"
    by (simp add: onWheel_def Let_def n js_gt_def)
  from n(1,2) c d show "normalizedDeltaY e s = NaN \<and> foldedDeltaY e s = NaN \<and>
     \<not> canScroll (table s) (Fin 0) (foldedDeltaY e s) \<and>
     (\<not> wheelBypassed e \<longrightarrow> \<not> wheelAnimationFrame s \<longrightarrow>
      \<not> canScroll (table s) (Fin (deltaX e)) (foldedDeltaY e s) \<longrightarrow>
        table (snd (onWheel e s)) = table s \<and>
        (\<not> ignoreNewWheel s \<longrightarrow> \<not> fst (onWheel e s)))"
    by (intro conjI)
qed

theorem line_mode_without_line_height_is_nan_witness:
  "scrollLineHeight probeFailedGrid = None \<and>
   deltaMode (wheelBy 0 3 DOM_DELTA_LINE) = DOM_DELTA_LINE \<and>
   \<not> wheelBypassed (wheelBy 0 3 DOM_DELTA_LINE) \<and> \<not> wheelAnimationFrame probeFailedGrid \<and>
   \<not> ignoreNewWheel probeFailedGrid \<and>
   normalizedDeltaY (wheelBy 0 3 DOM_DELTA_LINE) probeFailedGrid = NaN \<and>
   \<not> canScroll (table probeFailedGrid) (Fin (deltaX (wheelBy 0 3 DOM_DELTA_LINE)))
       (foldedDeltaY (wheelBy 0 3 DOM_DELTA_LINE) probeFailedGrid) \<and>
   table (snd (onWheel (wheelBy 0 3 DOM_DELTA_LINE) probeFailedGrid)) = table probeFailedGrid \<and>
   \<not> fst (onWheel (wheelBy 0 3 DOM_DELTA_LINE) probeFailedGrid)"
proof -
  have h: "scrollLineHeight probeFailedGrid = None"
    "deltaMode (wheelBy 0 3 DOM_DELTA_LINE) = DOM_DELTA_LINE"
    "\<not> wheelAnimationFrame probeFailedGrid" "\<not> ignoreNewWheel probeFailedGrid"
    "deltaX (wheelBy 0 3 DOM_DELTA_LINE) = 0"
    by (simp_all add: example_defs getScrollLineHeight_def)
  have nb: "\<not> wheelBypassed (wheelBy 0 3 DOM_DELTA_LINE)" by (rule wheelBy_not_bypassed)
  note t = line_mode_without_line_height_is_nan [where s = probeFailedGrid
      and e = "wheelBy 0 3 DOM_DELTA_LINE", rule_format, OF h(1,2)]
  from t have a: "normalizedDeltaY (wheelBy 0 3 DOM_DELTA_LINE) probeFailedGrid = NaN"
    and c0: "\<not> canScroll (table probeFailedGrid) (Fin 0)
       (foldedDeltaY (wheelBy 0 3 DOM_DELTA_LINE) probeFailedGrid)"
    by blast+
  from c0 have c: "\<not> canScroll (table probeFailedGrid) (Fin (deltaX (wheelBy 0 3 DOM_DELTA_LINE)))
       (foldedDeltaY (wheelBy 0 3 DOM_DELTA_LINE) probeFailedGrid)"
    by (simp add: h(5))
  from t nb h(3) c have d: "table (snd (onWheel (wheelBy 0 3 DOM_DELTA_LINE) probeFailedGrid)) = table probeFailedGrid"
    "\<not> ignoreNewWheel probeFailedGrid \<longrightarrow> \<not> fst (onWheel (wheelBy 0 3 DOM_DELTA_LINE) probeFailedGrid)"
    by blast+
  from d(2) h(4) have d2: "\<not> fst (onWheel (wheelBy 0 3 DOM_DELTA_LINE) probeFailedGrid)" by blast
  from h(1,2) nb h(3,4) a c d(1) d2 show ?thesis by (intro conjI)
qed

text \<open>
  Claim C4 as the specification words it, with the scaling degrading to a no-op and no
  not-a-number offset reaching the scroll surface, fails on the grid whose probe found no
  font size: a line-mode event with a vertical delta of 3 lines and a horizontal delta of
  5 pixels gets the vertical delta not-a-number, passes the capacity test through its
  horizontal delta, and adds not-a-number to \<open>scrollTop\<close>.
\<close>

theorem line_mode_without_line_height_applies_nan:
  "getScrollLineHeight [] = None \<and>
   normalizedDeltaY (wheelBy 5 3 DOM_DELTA_LINE) probeFailedGrid = NaN \<and>
   fst (onWheel (wheelBy 5 3 DOM_DELTA_LINE) probeFailedGrid) \<and>
   scrollTop (table (snd (onWheel (wheelBy 5 3 DOM_DELTA_LINE) probeFailedGrid))) = NaN \<and>
   previousMomentum (snd (onWheel (wheelBy 5 3 DOM_DELTA_LINE) probeFailedGrid)) = Some NaN"
  by (simp add: wheel_defs example_defs getScrollLineHeight_def)

section \<open>The control key\<close>

text \<open>
  Claim C10. A wheel event with the control key set makes the handler return at once:
  the default is not prevented and the grid, with its scroll offsets, its accumulated
  delta, its residual-momentum flag and its previous momentum, is as it was.
\<close>

theorem ctrl_wheel_returns_immediately:
  "ctrlKey e \<Longrightarrow> onWheel e s = (False, s)"
  by (simp add: onWheel_def wheelBypassed_def)

theorem ctrl_wheel_returns_immediately_witness:
  "ctrlKey ((wheelBy 0 10 0)\<lparr>ctrlKey := True\<rparr>) \<and>
   onWheel ((wheelBy 0 10 0)\<lparr>ctrlKey := True\<rparr>) coolingGrid = (False, coolingGrid)"
proof -
  have h: "ctrlKey ((wheelBy 0 10 0)\<lparr>ctrlKey := True\<rparr>)" by simp
  from ctrl_wheel_returns_immediately [OF h, of coolingGrid] h show ?thesis by simp
qed

section \<open>The cooldown\<close>

lemma onWheel_applied:
  assumes "\<not> wheelBypassed e" "\<not> wheelAnimationFrame s"
    "canScroll (table s) (Fin (deltaX e)) (foldedDeltaY e s)"
  shows "fst (onWheel e s)" "ignoreNewWheel (snd (onWheel e s))"
    "debouncerIgnoreNewWheel (snd (onWheel e s)) = Some (now s + IGNORE_WHEEL)"
    "now (snd (onWheel e s)) = now s"
    "scrollTop (table (snd (onWheel e s))) = js_add (scrollTop (table s)) (foldedDeltaY e s)"
    "scrollLeft (table (snd (onWheel e s))) = js_add (scrollLeft (table s)) (Fin (deltaX e))"
  using assms by (simp_all add: onWheel_def Let_def scrollHandler_def)

lemma onWheel_not_applied:
  assumes "wheelAnimationFrame s \<or> \<not> canScroll (table s) (Fin (deltaX e)) (foldedDeltaY e s)"
  shows "table (snd (onWheel e s)) = table s"
  using assms by (auto simp add: onWheel_def Let_def)

text \<open>
  Claim C2, as amended. A wheel event whose delta is applied sets \<open>_ignoreNewWheel\<close>
  and arms a timeout of 500 milliseconds that clears it: the flag is set at every moment
  before the deadline and cleared at the deadline. While the flag is set, every wheel
  event that passes the guard of the handler (no control key, no scrollable ancestor) is
  marked handled; its delta is applied to \<open>scrollTop\<close> and \<open>scrollLeft\<close> when no
  animation frame is pending and the scroll surface has capacity for it, and otherwise
  the scroll surface is left as it is.
\<close>

theorem cooldown_marks_handled_applies_by_capacity:
  "IGNORE_WHEEL = 500 \<and>
   (\<not> wheelBypassed e \<longrightarrow> \<not> wheelAnimationFrame s \<longrightarrow>
    canScroll (table s) (Fin (deltaX e)) (foldedDeltaY e s) \<longrightarrow>
      fst (onWheel e s) \<and> ignoreNewWheel (snd (onWheel e s)) \<and>
      debouncerIgnoreNewWheel (snd (onWheel e s)) = Some (now s + IGNORE_WHEEL) \<and>
      (\<forall>d < IGNORE_WHEEL. ignoreNewWheel (elapse d (snd (onWheel e s)))) \<and>
      \<not> ignoreNewWheel (elapse IGNORE_WHEEL (snd (onWheel e s)))) \<and>
   (\<not> wheelBypassed e \<longrightarrow> ignoreNewWheel s \<longrightarrow>
      fst (onWheel e s) \<and>
      (if \<not> wheelAnimationFrame s \<and> canScroll (table s) (Fin (deltaX e)) (foldedDeltaY e s)
       then scrollTop (table (snd (onWheel e s))) = js_add (scrollTop (table s)) (foldedDeltaY e s) \<and>
            scrollLeft (table (snd (onWheel e s))) = js_add (scrollLeft (table s)) (Fin (deltaX e))
       else table (snd (onWheel e s)) = table s))"
proof (intro conjI impI)
  show "IGNORE_WHEEL = 500" by (simp add: IGNORE_WHEEL_def)
next
  assume a: "\<not> wheelBypassed e" "\<not> wheelAnimationFrame s"
    "canScroll (table s) (Fin (deltaX e)) (foldedDeltaY e s)"
  note r = onWheel_applied [OF a]
  show "fst (onWheel e s)" by (rule r(1))
  show "ignoreNewWheel (snd (onWheel e s))" by (rule r(2))
  show "debouncerIgnoreNewWheel (snd (onWheel e s)) = Some (now s + IGNORE_WHEEL)" by (rule r(3))
  show "\<forall>d < IGNORE_WHEEL. ignoreNewWheel (elapse d (snd (onWheel e s)))"
  proof (intro allI impI)
    fix d assume "d < IGNORE_WHEEL"
    then have "now (snd (onWheel e s)) + d < now s + IGNORE_WHEEL" using r(4) by simp
    from elapse_cooldown [OF r(2,3) this] show "ignoreNewWheel (elapse d (snd (onWheel e s)))"
      by simp
  qed
  have "now s + IGNORE_WHEEL \<le> now (snd (onWheel e s)) + IGNORE_WHEEL" using r(4) by simp
  from elapse_expire [OF r(3) this] show "\<not> ignoreNewWheel (elapse IGNORE_WHEEL (snd (onWheel e s)))"
    by simp
next
  assume a: "\<not> wheelBypassed e" "ignoreNewWheel s"
  then show "fst (onWheel e s)" by (simp add: onWheel_def Let_def)
  show "if \<not> wheelAnimationFrame s \<and> canScroll (table s) (Fin (deltaX e)) (foldedDeltaY e s)
       then scrollTop (table (snd (onWheel e s))) = js_add (scrollTop (table s)) (foldedDeltaY e s) \<and>
            scrollLeft (table (snd (onWheel e s))) = js_add (scrollLeft (table s)) (Fin (deltaX e))
       else table (snd (onWheel e s)) = table s"
  proof (cases "\<not> wheelAnimationFrame s \<and> canScroll (table s) (Fin (deltaX e)) (foldedDeltaY e s)")
    case True
    with onWheel_applied(5,6) [OF a(1), of s] show ?thesis by simp
  next
    case False
    with onWheel_not_applied [of s e] show ?thesis by auto
  qed
qed

theorem cooldown_marks_handled_applies_by_capacity_witness:
  "\<not> wheelBypassed (wheelBy 0 10 0) \<and> \<not> wheelAnimationFrame exampleGrid \<and>
   canScroll (table exampleGrid) (Fin (deltaX (wheelBy 0 10 0))) (foldedDeltaY (wheelBy 0 10 0) exampleGrid) \<and>
   fst (onWheel (wheelBy 0 10 0) exampleGrid) \<and>
   ignoreNewWheel (snd (onWheel (wheelBy 0 10 0) exampleGrid)) \<and>
   debouncerIgnoreNewWheel (snd (onWheel (wheelBy 0 10 0) exampleGrid)) = Some 500 \<and>
   ignoreNewWheel (elapse 499 (snd (onWheel (wheelBy 0 10 0) exampleGrid))) \<and>
   \<not> ignoreNewWheel (elapse 500 (snd (onWheel (wheelBy 0 10 0) exampleGrid))) \<and>
   ignoreNewWheel coolingGrid \<and> fst (onWheel (wheelBy 0 10 0) coolingGrid) \<and>
   scrollTop (table (snd (onWheel (wheelBy 0 10 0) coolingGrid))) = Fin 20 \<and>
   ignoreNewWheel bottomGrid \<and> fst (onWheel (wheelBy 0 20 0) bottomGrid) \<and>
   table (snd (onWheel (wheelBy 0 20 0) bottomGrid)) = table bottomGrid"
proof -
  have nb: "\<not> wheelBypassed (wheelBy 0 10 0)" "\<not> wheelBypassed (wheelBy 0 20 0)"
    by (rule wheelBy_not_bypassed)+
  have h: "\<not> wheelAnimationFrame exampleGrid"
    "canScroll (table exampleGrid) (Fin (deltaX (wheelBy 0 10 0))) (foldedDeltaY (wheelBy 0 10 0) exampleGrid)"
    by (simp_all add: wheel_defs example_defs)
  have c: "ignoreNewWheel coolingGrid" "\<not> wheelAnimationFrame coolingGrid"
    "canScroll (table coolingGrid) (Fin (deltaX (wheelBy 0 10 0))) (foldedDeltaY (wheelBy 0 10 0) coolingGrid)"
    "js_add (scrollTop (table coolingGrid)) (foldedDeltaY (wheelBy 0 10 0) coolingGrid) = Fin 20"
    unfolding coolingGrid_eq by (simp_all add: wheel_defs example_defs)
  have b: "ignoreNewWheel bottomGrid" "wheelAnimationFrame bottomGrid"
    unfolding bottomGrid_eq by simp_all
  have n: "now exampleGrid = 0" by (simp add: exampleGrid_def)
  note t1 = cooldown_marks_handled_applies_by_capacity [where e = "wheelBy 0 10 0" and s = exampleGrid,
      THEN conjunct2, THEN conjunct1, rule_format, OF nb(1) h]
  note i = cooldown_marks_handled_applies_by_capacity [where e = "wheelBy 0 10 0" and s = exampleGrid,
      THEN conjunct1]
  note t2 = cooldown_marks_handled_applies_by_capacity [where e = "wheelBy 0 10 0" and s = coolingGrid,
      THEN conjunct2, THEN conjunct2, rule_format, OF nb(1) c(1)]
  note t3 = cooldown_marks_handled_applies_by_capacity [where e = "wheelBy 0 20 0" and s = bottomGrid,
      THEN conjunct2, THEN conjunct2, rule_format, OF nb(2) b(1)]
  from t1 have a1: "fst (onWheel (wheelBy 0 10 0) exampleGrid)"
    "ignoreNewWheel (snd (onWheel (wheelBy 0 10 0) exampleGrid))"
    "debouncerIgnoreNewWheel (snd (onWheel (wheelBy 0 10 0) exampleGrid)) = Some 500"
    "ignoreNewWheel (elapse 499 (snd (onWheel (wheelBy 0 10 0) exampleGrid)))"
    "\<not> ignoreNewWheel (elapse 500 (snd (onWheel (wheelBy 0 10 0) exampleGrid)))"
    by (simp_all add: i n)
  from t2 c have a2: "fst (onWheel (wheelBy 0 10 0) coolingGrid)"
    "scrollTop (table (snd (onWheel (wheelBy 0 10 0) coolingGrid))) = Fin 20"
    by simp_all
  from t3 b have a3: "fst (onWheel (wheelBy 0 20 0) bottomGrid)"
    "table (snd (onWheel (wheelBy 0 20 0) bottomGrid)) = table bottomGrid"
    by simp_all
  from nb(1) h a1 c(1) a2 b(1) a3 show ?thesis by (intro conjI)
qed

text \<open>
  Claim C2 as the specification words it fails while the surface has capacity left: 100
  milliseconds after a first event of 10 pixels was applied, with the cooldown flag
  still set, a second event of 10 pixels is marked handled and moves \<open>scrollTop\<close>
  from 10 to 20.
\<close>

theorem cooldown_applies_while_capacity_remains:
  "ignoreNewWheel coolingGrid \<and> debouncerIgnoreNewWheel coolingGrid = Some 500 \<and>
   now coolingGrid = 100 \<and> fst (onWheel (wheelBy 0 10 0) coolingGrid) \<and>
   scrollTop (table coolingGrid) = Fin 10 \<and>
   scrollTop (table (snd (onWheel (wheelBy 0 10 0) coolingGrid))) = Fin 20"
  unfolding coolingGrid_eq by (simp add: wheel_defs example_defs)

section \<open>The momentum gate past capacity\<close>










section \<open>Reordering during a pointer drag\<close>

text \<open>
  Claim C5. While the pointer is held down on the scroll surface, \<open>_reorderRows\<close> only
  sets the pending flag: no node moves. Releasing the pointer with the pending flag set
  clears both flags and schedules exactly one call of \<open>_reorderRows\<close>, 500
  milliseconds later; releasing it without the pending flag schedules nothing. With no
  other timer pending, nothing but the clock changes before those 500 milliseconds are
  over, and at 500 milliseconds the grid is the result of one call of \<open>_reorderRows\<close>.
\<close>

theorem reorder_deferred_while_dragging:
  "SCROLLING = 500 \<and>
   (mouseDown s \<longrightarrow> reorderRows s = Returned (s\<lparr>pendingReorder := True\<rparr>)) \<and>
   (pendingReorder s \<longrightarrow>
      onMouseUp s = s\<lparr>mouseDown := False, pendingReorder := False,
                      timeouts := timeouts s @ [(now s + SCROLLING, ReorderRows)]\<rparr>) \<and>
   (\<not> pendingReorder s \<longrightarrow> onMouseUp s = s\<lparr>mouseDown := False\<rparr>) \<and>
   (pendingReorder s \<longrightarrow> timeouts s = [] \<longrightarrow> debouncerIgnoreNewWheel s = None \<longrightarrow>
      (\<forall>d < SCROLLING. elapse d (onMouseUp s) = (onMouseUp s)\<lparr>now := now s + d\<rparr>) \<and>
      elapse SCROLLING (onMouseUp s) =
        grid_of (reorderRows (s\<lparr>mouseDown := False, pendingReorder := False,
                                 timeouts := [], now := now s + SCROLLING\<rparr>)))"
proof (intro conjI impI allI)
  show "SCROLLING = 500" by (simp add: SCROLLING_def)
next
  assume "mouseDown s"
  then show "reorderRows s = Returned (s\<lparr>pendingReorder := True\<rparr>)"
    by (simp add: reorderRows_def)
next
  assume "pendingReorder s"
  then show "onMouseUp s = s\<lparr>mouseDown := False, pendingReorder := False,
                      timeouts := timeouts s @ [(now s + SCROLLING, ReorderRows)]\<rparr>"
    by (simp add: onMouseUp_def Let_def)
next
  assume "\<not> pendingReorder s"
  then show "onMouseUp s = s\<lparr>mouseDown := False\<rparr>"
    by (simp add: onMouseUp_def Let_def)
next
  fix d
  assume a: "pendingReorder s" "timeouts s = []" "debouncerIgnoreNewWheel s = None" "d < SCROLLING"
  then show "elapse d (onMouseUp s) = (onMouseUp s)\<lparr>now := now s + d\<rparr>"
    by (simp add: onMouseUp_def Let_def elapse_def)
next
  assume a: "pendingReorder s" "timeouts s = []" "debouncerIgnoreNewWheel s = None"
  have "elapse SCROLLING (onMouseUp s) =
      runCallback ReorderRows (s\<lparr>mouseDown := False, pendingReorder := False,
                                 now := now s + SCROLLING, timeouts := []\<rparr>)"
    using a by (simp add: onMouseUp_def Let_def elapse_def)
  moreover have "s\<lparr>mouseDown := False, pendingReorder := False,
                   now := now s + SCROLLING, timeouts := []\<rparr> =
      s\<lparr>mouseDown := False, pendingReorder := False,
        timeouts := [], now := now s + SCROLLING\<rparr>"
    by (cases s) simp
  ultimately show "elapse SCROLLING (onMouseUp s) =
        grid_of (reorderRows (s\<lparr>mouseDown := False, pendingReorder := False,
                                 timeouts := [], now := now s + SCROLLING\<rparr>))"
    by (simp add: runCallback_def)
qed

theorem reorder_deferred_while_dragging_witness:
  "mouseDown draggingGrid \<and>
   reorderRows draggingGrid = Returned (draggingGrid\<lparr>pendingReorder := True\<rparr>) \<and>
   pendingReorder (draggingGrid\<lparr>pendingReorder := True\<rparr>) \<and>
   timeouts (draggingGrid\<lparr>pendingReorder := True\<rparr>) = [] \<and>
   debouncerIgnoreNewWheel (draggingGrid\<lparr>pendingReorder := True\<rparr>) = None \<and>
   timeouts (onMouseUp (draggingGrid\<lparr>pendingReorder := True\<rparr>)) = [(500, ReorderRows)] \<and>
   items (elapse 499 (onMouseUp (draggingGrid\<lparr>pendingReorder := True\<rparr>))) = [12, 13, 10, 11] \<and>
   items (elapse 500 (onMouseUp (draggingGrid\<lparr>pendingReorder := True\<rparr>))) = [10, 11, 12, 13] \<and>
   domMoves (elapse 500 (onMouseUp (draggingGrid\<lparr>pendingReorder := True\<rparr>))) = 2 \<and>
   \<not> pendingReorder exampleGrid \<and> onMouseUp exampleGrid = exampleGrid\<lparr>mouseDown := False\<rparr>"
proof -
  let ?g = "draggingGrid\<lparr>pendingReorder := True\<rparr>"
  have h: "mouseDown draggingGrid" "pendingReorder ?g" "timeouts ?g = []"
    "debouncerIgnoreNewWheel ?g = None" "\<not> pendingReorder exampleGrid" "now ?g = 0"
    by (simp_all add: draggingGrid_def onMouseDown_def exampleGrid_def)
  note i = reorder_deferred_while_dragging [where s = draggingGrid, THEN conjunct1]
  note a = reorder_deferred_while_dragging [where s = draggingGrid, THEN conjunct2, THEN conjunct1,
      rule_format, OF h(1)]
  note b = reorder_deferred_while_dragging [where s = ?g, THEN conjunct2, THEN conjunct2,
      THEN conjunct1, rule_format, OF h(2)]
  note c = reorder_deferred_while_dragging [where s = exampleGrid, THEN conjunct2, THEN conjunct2,
      THEN conjunct2, THEN conjunct1, rule_format, OF h(5)]
  note d = reorder_deferred_while_dragging [where s = ?g, THEN conjunct2, THEN conjunct2,
      THEN conjunct2, THEN conjunct2, rule_format, OF h(2,3,4)]
  from b have b': "timeouts (onMouseUp ?g) = [(500, ReorderRows)]"
    by (simp add: i h)
  have lt: "499 < SCROLLING" by (simp add: i)
  note d1' = d [THEN conjunct1, rule_format, OF lt]
  have d1: "items (elapse 499 (onMouseUp ?g)) = [12, 13, 10, 11]"
    by (subst d1') (simp add: onMouseUp_def Let_def draggingGrid_def onMouseDown_def exampleGrid_def)
  from d [THEN conjunct2] have d2: "items (elapse 500 (onMouseUp ?g)) = [10, 11, 12, 13]"
    "domMoves (elapse 500 (onMouseUp ?g)) = 2"
    by (simp_all add: i reorder_defs example_defs eval_nat_numeral)
  from h(1) a h(2,3,4) b' d1 d2 h(5) c show ?thesis by (intro conjI)
qed

section \<open>Reordering restores the logical order\<close>

text \<open>
  Claim C3, as amended. When no pointer drag is active, the physical order of the rows is
  a rotation of the logical order, and the target row is one of the rows, at physical
  position \<open>P\<close> with desired position \<open>D\<close>, then \<open>_reorderRows\<close> returns after
  exactly \<open>|P - D|\<close> node moves with the physical order equal to the logical order,
  over the same rows. A second call right after finds a target with delta 0 and returns
  without moving a node: all it does is what the remedy for Safari does, so the rows and
  their order stay, and in a browser other than Safari the grid is left exactly as the
  first call left it.
\<close>

theorem reorderRows_restores_order_moves_no_row_again:
  assumes "\<not> mouseDown s"
    and "physicalOrder s = rotate k (logicalOrder s)"
    and "targetRow (items s) s = Some t"
    and "t \<in> set (items s)"
  shows "\<exists>s'. reorderRows s = Returned s' \<and>
      domMoves s' = domMoves s +
        nat \<bar>indexOf (items s) t - (index (rows s t) - (virtualStart s + vidxOffset s))\<bar> \<and>
      physicalOrder s' = logicalOrder s' \<and>
      set (items s') = set (items s) \<and> length (items s') = length (items s) \<and>
      (\<exists>t'. targetRow (items s') s' = Some t' \<and> reorderDelta (items s') t' s' = 0) \<and>
      reorderRows s' = Returned (safariWorkaround s') \<and>
      domMoves (safariWorkaround s') = domMoves s' \<and>
      items (safariWorkaround s') = items s' \<and>
      rows (safariWorkaround s') = rows s' \<and>
      (\<not> safari s \<longrightarrow> reorderRows s' = Returned s')"
proof -
  obtain r where
    R: "reorderRows s = Returned (safariWorkaround
            (s\<lparr>items := rotate r (items s),
               domMoves := domMoves s + nat \<bar>reorderDelta (items s) t s\<bar>\<rparr>))"
    and rk: "(r + k) mod length (items s) = 0"
    by (rule reorderRows_rotated [OF assms])
  define s0 where "s0 = s\<lparr>items := rotate r (items s),
               domMoves := domMoves s + nat \<bar>reorderDelta (items s) t s\<bar>\<rparr>"
  define s' where "s' = safariWorkaround s0"
  have R': "reorderRows s = Returned s'" using R unfolding s'_def s0_def .
  have it: "items s' = rotate r (items s)"
    unfolding s'_def s0_def by (simp add: safariWorkaround_fields)
  have mv: "domMoves s' = domMoves s +
        nat \<bar>indexOf (items s) t - (index (rows s t) - (virtualStart s + vidxOffset s))\<bar>"
    unfolding s'_def s0_def by (simp add: safariWorkaround_fields reorderDelta_def Let_def)
  have same: "rows s' = rows s" "virtualStart s' = virtualStart s" "vidxOffset s' = vidxOffset s"
    "rowWithFocusedElement s' = rowWithFocusedElement s" "mouseDown s' = mouseDown s"
    unfolding s'_def s0_def by (simp_all add: safariWorkaround_fields)
  have sf: "safari s' = safari s"
    unfolding s'_def s0_def by (simp add: safariWorkaround_def)
  have lo: "logicalOrder s' = logicalOrder s"
    unfolding logicalOrder_def by (simp add: it same)
  have "physicalOrder s' = rotate r (physicalOrder s)"
    unfolding physicalOrder_def by (simp add: it same rotate_map)
  also have "\<dots> = logicalOrder s"
    by (rule rotate_back [OF assms(2)]) (simp add: rk logicalOrder_def)
  finally have po: "physicalOrder s' = logicalOrder s'" using lo by simp
  have st: "set (items s') = set (items s)" "length (items s') = length (items s)"
    by (simp_all add: it)
  from targetRow_after [OF assms(3,4) st(1) same(4) same(1)]
  obtain t' where t': "targetRow (items s') s' = Some t'" "t' \<in> set (items s')"
    by (elim exE conjE)
  have d0: "reorderDelta (items s') t' s' = 0" by (rule reorderDelta_sorted [OF po t'(2)])
  have md: "\<not> mouseDown s'" using assms(1) same by simp
  have R2: "reorderRows s' = Returned (safariWorkaround s')"
    by (rule reorderRows_sorted [OF md po t'])
  have snd: "domMoves (safariWorkaround s') = domMoves s'" "items (safariWorkaround s') = items s'"
    "rows (safariWorkaround s') = rows s'"
    by (simp_all add: safariWorkaround_fields)
  have plain: "\<not> safari s \<longrightarrow> reorderRows s' = Returned s'"
    using R2 sf by (simp add: safariWorkaround_def)
  from t'(1) d0 have tgt: "\<exists>t'. targetRow (items s') s' = Some t' \<and> reorderDelta (items s') t' s' = 0"
    by (intro exI [of _ t'] conjI)
  from R' mv po st tgt R2 snd plain show ?thesis
    by (intro exI [of _ s']) (intro conjI)
qed

theorem reorderRows_restores_order_moves_no_row_again_witness:
  "\<not> mouseDown exampleGrid \<and>
   physicalOrder exampleGrid = rotate 2 (logicalOrder exampleGrid) \<and>
   targetRow (items exampleGrid) exampleGrid = Some 12 \<and> 12 \<in> set (items exampleGrid) \<and>
   indexOf (items exampleGrid) 12 = 0 \<and>
   index (rows exampleGrid 12) - (virtualStart exampleGrid + vidxOffset exampleGrid) = 2 \<and>
   reorderRows exampleGrid = Returned reorderedGrid \<and>
   domMoves reorderedGrid = domMoves exampleGrid + 2 \<and>
   physicalOrder reorderedGrid = logicalOrder reorderedGrid \<and>
   items reorderedGrid = [10, 11, 12, 13] \<and>
   (\<exists>t'. targetRow (items reorderedGrid) reorderedGrid = Some t' \<and>
      reorderDelta (items reorderedGrid) t' reorderedGrid = 0) \<and>
   reorderRows reorderedGrid = Returned (safariWorkaround reorderedGrid) \<and>
   domMoves (safariWorkaround reorderedGrid) = domMoves reorderedGrid \<and>
   items (safariWorkaround reorderedGrid) = items reorderedGrid \<and>
   \<not> safari otherBrowserGrid \<and> \<not> mouseDown otherBrowserGrid \<and>
   physicalOrder otherBrowserGrid = rotate 2 (logicalOrder otherBrowserGrid) \<and>
   targetRow (items otherBrowserGrid) otherBrowserGrid = Some 12 \<and>
   12 \<in> set (items otherBrowserGrid) \<and>
   reorderRows otherBrowserGrid = Returned otherReorderedGrid \<and>
   items otherReorderedGrid = [10, 11, 12, 13] \<and>
   domMoves otherReorderedGrid = domMoves otherBrowserGrid + 2 \<and>
   reorderRows otherReorderedGrid = Returned otherReorderedGrid"
proof -
  have h: "\<not> mouseDown exampleGrid"
    "physicalOrder exampleGrid = rotate 2 (logicalOrder exampleGrid)"
    "targetRow (items exampleGrid) exampleGrid = Some 12" "12 \<in> set (items exampleGrid)"
    by (simp_all add: physicalOrder_def logicalOrder_def targetRow_def exampleGrid_def
        eval_nat_numeral upt_rec)
  have p: "indexOf (items exampleGrid) 12 = 0"
    "index (rows exampleGrid 12) - (virtualStart exampleGrid + vidxOffset exampleGrid) = 2"
    by (simp_all add: exampleGrid_def)
  have e: "items reorderedGrid = [10, 11, 12, 13]"
    unfolding reorderedGrid_eq by simp
  from reorderRows_restores_order_moves_no_row_again [OF h]
  obtain s' where c: "reorderRows exampleGrid = Returned s'"
    "domMoves s' = domMoves exampleGrid +
        nat \<bar>indexOf (items exampleGrid) 12 -
          (index (rows exampleGrid 12) - (virtualStart exampleGrid + vidxOffset exampleGrid))\<bar>"
    "physicalOrder s' = logicalOrder s'"
    "\<exists>t'. targetRow (items s') s' = Some t' \<and> reorderDelta (items s') t' s' = 0"
    "reorderRows s' = Returned (safariWorkaround s')"
    "domMoves (safariWorkaround s') = domMoves s'"
    "items (safariWorkaround s') = items s'"
    by (rule exE) (elim conjE)
  from c(1) have s': "s' = reorderedGrid" by (simp add: reorderedGrid_def)
  have mv: "domMoves reorderedGrid = domMoves exampleGrid + 2"
    using c(2) unfolding s' p by simp
  have o: "\<not> safari otherBrowserGrid" "\<not> mouseDown otherBrowserGrid"
    "physicalOrder otherBrowserGrid = rotate 2 (logicalOrder otherBrowserGrid)"
    "targetRow (items otherBrowserGrid) otherBrowserGrid = Some 12"
    "12 \<in> set (items otherBrowserGrid)"
    by (simp_all add: physicalOrder_def logicalOrder_def targetRow_def exampleGrid_def
        otherBrowserGrid_def eval_nat_numeral upt_rec)
  have q: "indexOf (items otherBrowserGrid) 12 = 0"
    "index (rows otherBrowserGrid 12) - (virtualStart otherBrowserGrid + vidxOffset otherBrowserGrid) = 2"
    by (simp_all add: exampleGrid_def otherBrowserGrid_def)
  from reorderRows_restores_order_moves_no_row_again [OF o(2,3,4,5)]
  obtain u where d: "reorderRows otherBrowserGrid = Returned u"
    "domMoves u = domMoves otherBrowserGrid +
        nat \<bar>indexOf (items otherBrowserGrid) 12 -
          (index (rows otherBrowserGrid 12) -
            (virtualStart otherBrowserGrid + vidxOffset otherBrowserGrid))\<bar>"
    "\<not> safari otherBrowserGrid \<longrightarrow> reorderRows u = Returned u"
    by (rule exE) (elim conjE)
  from d(1) have u: "u = otherReorderedGrid" by (simp add: otherReorderedGrid_def)
  have oe: "items otherReorderedGrid = [10, 11, 12, 13]"
    unfolding otherReorderedGrid_eq by simp
  have omv: "domMoves otherReorderedGrid = domMoves otherBrowserGrid + 2"
    using d(2) unfolding u q by simp
  have again: "reorderRows otherReorderedGrid = Returned otherReorderedGrid"
    using d(3) o(1) unfolding u by simp
  from h p c(1) [unfolded s'] mv c(3) [unfolded s'] e c(4) [unfolded s'] c(5) [unfolded s']
    c(6) [unfolded s'] c(7) [unfolded s'] o d(1) [unfolded u] oe omv again
  show ?thesis by (intro conjI)
qed

text \<open>
  Claim C3 as the specification words it fails on Safari and during a pointer drag. On
  the example grid the first call restores the logical order; the second call right
  after is no no-op: it writes the header's transform once more and queues a second
  timer, one that restores the empty transform the second call read, so that the header
  transform is empty once both timers have run, where after one call it is back at its
  value. With the pointer down on the scroll surface, a call on the same rows, two
  places away from their logical order, moves no node and leaves them as they are.
\<close>

theorem reorderRows_second_call_and_drag_counterexample:
  "\<not> mouseDown exampleGrid \<and>
   physicalOrder exampleGrid = rotate 2 (logicalOrder exampleGrid) \<and>
   targetRow (items exampleGrid) exampleGrid = Some 12 \<and>
   reorderRows exampleGrid = Returned reorderedGrid \<and>
   physicalOrder reorderedGrid = logicalOrder reorderedGrid \<and>
   headerTransform reorderedGrid = [] \<and>
   timeouts reorderedGrid = [(0, RestoreHeaderTransform ''translate(0px, 0px)'')] \<and>
   reorderRows reorderedGrid \<noteq> Returned reorderedGrid \<and>
   timeouts (grid_of (reorderRows reorderedGrid)) =
     [(0, RestoreHeaderTransform ''translate(0px, 0px)''), (0, RestoreHeaderTransform [])] \<and>
   headerTransform (elapse 0 reorderedGrid) = ''translate(0px, 0px)'' \<and>
   headerTransform (elapse 0 (grid_of (reorderRows reorderedGrid))) = [] \<and>
   mouseDown draggingGrid \<and>
   physicalOrder draggingGrid = rotate 2 (logicalOrder draggingGrid) \<and>
   targetRow (items draggingGrid) draggingGrid = Some 12 \<and>
   reorderDelta (items draggingGrid) 12 draggingGrid = - 2 \<and>
   domMoves (grid_of (reorderRows draggingGrid)) = domMoves draggingGrid \<and>
   items (grid_of (reorderRows draggingGrid)) = [12, 13, 10, 11]"
proof -
  have a: "\<not> mouseDown exampleGrid"
    "physicalOrder exampleGrid = rotate 2 (logicalOrder exampleGrid)"
    "targetRow (items exampleGrid) exampleGrid = Some 12"
    by (simp_all add: physicalOrder_def logicalOrder_def targetRow_def exampleGrid_def
        eval_nat_numeral upt_rec)
  have b: "reorderRows exampleGrid = Returned reorderedGrid"
    unfolding reorderedGrid_def by (simp add: reorder_defs example_defs eval_nat_numeral)
  have c: "physicalOrder reorderedGrid = logicalOrder reorderedGrid"
    "headerTransform reorderedGrid = []"
    "timeouts reorderedGrid = [(0, RestoreHeaderTransform ''translate(0px, 0px)'')]"
    unfolding reorderedGrid_eq
    by (simp_all add: physicalOrder_def logicalOrder_def exampleGrid_def eval_nat_numeral upt_rec)
  have d: "timeouts (grid_of (reorderRows reorderedGrid)) =
     [(0, RestoreHeaderTransform ''translate(0px, 0px)''), (0, RestoreHeaderTransform [])]"
    unfolding reorderRows_reorderedGrid by simp
  have e: "mouseDown draggingGrid"
    "physicalOrder draggingGrid = rotate 2 (logicalOrder draggingGrid)"
    "targetRow (items draggingGrid) draggingGrid = Some 12"
    "reorderDelta (items draggingGrid) 12 draggingGrid = - 2"
    "domMoves (grid_of (reorderRows draggingGrid)) = domMoves draggingGrid"
    "items (grid_of (reorderRows draggingGrid)) = [12, 13, 10, 11]"
    by (simp_all add: reorder_defs physicalOrder_def logicalOrder_def example_defs
        eval_nat_numeral upt_rec)
  from a b c reorderRows_reorderedGrid_changes d header_after_one_call header_after_two_calls
    e show ?thesis by (intro conjI)
qed

section \<open>The target row\<close>

lemma first_filter_conv:
  "((case filter P xs of [] \<Rightarrow> None | r # _ \<Rightarrow> Some r) = Some t) =
   (\<exists>before after. xs = before @ t # after \<and> P t \<and> (\<forall>x \<in> set before. \<not> P x))"
proof (induction xs)
  case Nil
  then show ?case by simp
next
  case (Cons x xs)
  show ?case
  proof (cases "P x")
    case True
    have "(\<exists>before after. x # xs = before @ t # after \<and> P t \<and> (\<forall>y \<in> set before. \<not> P y)) = (x = t)"
    proof
      assume "\<exists>before after. x # xs = before @ t # after \<and> P t \<and> (\<forall>y \<in> set before. \<not> P y)"
      then obtain before after where h: "x # xs = before @ t # after" "\<forall>y \<in> set before. \<not> P y"
        by blast
      show "x = t"
      proof (cases before)
        case Nil
        with h show ?thesis by simp
      next
        case (Cons b bs)
        with h True show ?thesis by auto
      qed
    next
      assume "x = t"
      with True have "x # xs = [] @ t # xs \<and> P t \<and> (\<forall>y \<in> set []. \<not> P y)" by simp
      then show "\<exists>before after. x # xs = before @ t # after \<and> P t \<and> (\<forall>y \<in> set before. \<not> P y)"
        by blast
    qed
    with True show ?thesis by simp
  next
    case False
    have "(\<exists>before after. x # xs = before @ t # after \<and> P t \<and> (\<forall>y \<in> set before. \<not> P y)) =
          (\<exists>before after. xs = before @ t # after \<and> P t \<and> (\<forall>y \<in> set before. \<not> P y))"
    proof
      assume "\<exists>before after. x # xs = before @ t # after \<and> P t \<and> (\<forall>y \<in> set before. \<not> P y)"
      then obtain before after where h: "x # xs = before @ t # after" "P t" "\<forall>y \<in> set before. \<not> P y"
        by blast
      show "\<exists>before after. xs = before @ t # after \<and> P t \<and> (\<forall>y \<in> set before. \<not> P y)"
      proof (cases before)
        case Nil
        with h False show ?thesis by simp
      next
        case (Cons b bs)
        with h have "xs = bs @ t # after \<and> P t \<and> (\<forall>y \<in> set bs. \<not> P y)" by simp
        then show ?thesis by blast
      qed
    next
      assume "\<exists>before after. xs = before @ t # after \<and> P t \<and> (\<forall>y \<in> set before. \<not> P y)"
      then obtain before after where h: "xs = before @ t # after" "P t" "\<forall>y \<in> set before. \<not> P y"
        by blast
      with False have "x # xs = (x # before) @ t # after \<and> P t \<and> (\<forall>y \<in> set (x # before). \<not> P y)"
        by simp
      then show "\<exists>before after. x # xs = before @ t # after \<and> P t \<and> (\<forall>y \<in> set before. \<not> P y)"
        by blast
    qed
    with False Cons.IH show ?thesis by simp
  qed
qed

lemma reorderRows_no_anchor:
  assumes "\<not> mouseDown s"
    "items s = [] \<or> (rowWithFocusedElement s = None \<and> (\<forall>x \<in> set (items s). hidden (rows s x)))"
  shows "reorderRows s = Returned s"
proof (cases "items s = []")
  case True
  with assms(1) show ?thesis by (simp add: reorderRows_def)
next
  case False
  with assms(2) have f: "rowWithFocusedElement s = None" "\<forall>x \<in> set (items s). hidden (rows s x)"
    by simp_all
  from f(2) have "filter (\<lambda>r. \<not> hidden (rows s r)) (items s) = []"
    by (simp add: filter_empty_conv)
  with f(1) have "targetRow (items s) s = None" by (simp add: targetRow_def)
  with assms(1) False show ?thesis by (simp add: reorderRows_def Let_def)
qed

lemma targetRow_rendered_focus:
  assumes "\<And>r. rowWithFocusedElement s = Some r \<Longrightarrow> r \<in> set its"
  shows "targetRow its s = targetRow_spec its s"
  using assms by (cases "rowWithFocusedElement s") (simp_all add: targetRow_def targetRow_spec_def)

lemma targetRow_no_focus:
  assumes "rowWithFocusedElement s = None"
  shows "(targetRow its s = Some t) =
        (\<exists>before after. its = before @ t # after \<and> \<not> hidden (rows s t) \<and>
            (\<forall>x \<in> set before. hidden (rows s x)))"
  using assms first_filter_conv [of "\<lambda>r. \<not> hidden (rows s r)" its t] by (simp add: targetRow_def)

text \<open>
  Claim C6. The target row is to be the focused row if one is present and still
  rendered, otherwise the first row in physical order that is not hidden. The code
  agrees wherever the focused row, if any, is one of the rendered rows, and it returns
  with the grid unchanged when no row is rendered, or every row is hidden and no row is
  focused. It breaks on a focused row that is no longer rendered, which it takes for the
  target all the same, with \<open>-1\<close> for its place in the node list. With the rows 10 and
  11 in logical order and the reference at the detached row 12, the delta is \<open>-3\<close>
  where the first visible row gives 0, and \<open>_reorderRows\<close> stops with a
  \<open>TypeError\<close> at the first \<open>insertBefore\<close>. With four rows in logical order and
  the reference at the detached row 8, the delta is 1 and the call moves the first row
  to the end, out of the logical order. With the rows rotated by two and the reference
  at the detached row 9, the delta is 0 where the first visible row gives \<open>-2\<close>, and
  the call leaves the rows out of order.
\<close>

theorem stale_focused_row_breaks_reorder:
  "rowWithFocusedElement staleFocusGrid = Some 12 \<and> 12 \<notin> set (items staleFocusGrid) \<and>
   targetRow (items staleFocusGrid) staleFocusGrid = Some 12 \<and>
   targetRow_spec (items staleFocusGrid) staleFocusGrid = Some 10 \<and>
   physicalOrder staleFocusGrid = logicalOrder staleFocusGrid \<and>
   reorderDelta (items staleFocusGrid) 10 staleFocusGrid = 0 \<and>
   reorderDelta (items staleFocusGrid) 12 staleFocusGrid = - 3 \<and>
   reorderRows staleFocusGrid = TypeError staleFocusGrid \<and>
   rowWithFocusedElement staleSortedGrid = Some 8 \<and> 8 \<notin> set (items staleSortedGrid) \<and>
   targetRow (items staleSortedGrid) staleSortedGrid = Some 8 \<and>
   targetRow_spec (items staleSortedGrid) staleSortedGrid = Some 10 \<and>
   physicalOrder staleSortedGrid = logicalOrder staleSortedGrid \<and>
   reorderDelta (items staleSortedGrid) 10 staleSortedGrid = 0 \<and>
   reorderDelta (items staleSortedGrid) 8 staleSortedGrid = 1 \<and>
   items (grid_of (reorderRows staleSortedGrid)) = [11, 12, 13, 10] \<and>
   domMoves (grid_of (reorderRows staleSortedGrid)) = domMoves staleSortedGrid + 1 \<and>
   rowWithFocusedElement staleRotatedGrid = Some 9 \<and> 9 \<notin> set (items staleRotatedGrid) \<and>
   targetRow (items staleRotatedGrid) staleRotatedGrid = Some 9 \<and>
   targetRow_spec (items staleRotatedGrid) staleRotatedGrid = Some 12 \<and>
   physicalOrder staleRotatedGrid = rotate 2 (logicalOrder staleRotatedGrid) \<and>
   reorderDelta (items staleRotatedGrid) 12 staleRotatedGrid = - 2 \<and>
   reorderDelta (items staleRotatedGrid) 9 staleRotatedGrid = 0 \<and>
   items (grid_of (reorderRows staleRotatedGrid)) = [12, 13, 10, 11] \<and>
   domMoves (grid_of (reorderRows staleRotatedGrid)) = domMoves staleRotatedGrid"
proof -
  have a: "rowWithFocusedElement staleFocusGrid = Some 12" "12 \<notin> set (items staleFocusGrid)"
    "targetRow (items staleFocusGrid) staleFocusGrid = Some 12"
    "targetRow_spec (items staleFocusGrid) staleFocusGrid = Some 10"
    "physicalOrder staleFocusGrid = logicalOrder staleFocusGrid"
    "reorderDelta (items staleFocusGrid) 10 staleFocusGrid = 0"
    "reorderDelta (items staleFocusGrid) 12 staleFocusGrid = - 3"
    "reorderRows staleFocusGrid = TypeError staleFocusGrid"
    by (simp_all add: reorder_defs targetRow_spec_def physicalOrder_def logicalOrder_def
        example_defs eval_nat_numeral upt_rec)
  have b: "rowWithFocusedElement staleSortedGrid = Some 8" "8 \<notin> set (items staleSortedGrid)"
    "targetRow (items staleSortedGrid) staleSortedGrid = Some 8"
    "targetRow_spec (items staleSortedGrid) staleSortedGrid = Some 10"
    "physicalOrder staleSortedGrid = logicalOrder staleSortedGrid"
    "reorderDelta (items staleSortedGrid) 10 staleSortedGrid = 0"
    "reorderDelta (items staleSortedGrid) 8 staleSortedGrid = 1"
    "items (grid_of (reorderRows staleSortedGrid)) = [11, 12, 13, 10]"
    "domMoves (grid_of (reorderRows staleSortedGrid)) = domMoves staleSortedGrid + 1"
    by (simp_all add: reorder_defs targetRow_spec_def physicalOrder_def logicalOrder_def
        example_defs staleSortedGrid_def eval_nat_numeral upt_rec)
  have c: "rowWithFocusedElement staleRotatedGrid = Some 9" "9 \<notin> set (items staleRotatedGrid)"
    "targetRow (items staleRotatedGrid) staleRotatedGrid = Some 9"
    "targetRow_spec (items staleRotatedGrid) staleRotatedGrid = Some 12"
    "physicalOrder staleRotatedGrid = rotate 2 (logicalOrder staleRotatedGrid)"
    "reorderDelta (items staleRotatedGrid) 12 staleRotatedGrid = - 2"
    "reorderDelta (items staleRotatedGrid) 9 staleRotatedGrid = 0"
    "items (grid_of (reorderRows staleRotatedGrid)) = [12, 13, 10, 11]"
    "domMoves (grid_of (reorderRows staleRotatedGrid)) = domMoves staleRotatedGrid"
    by (simp_all add: reorder_defs targetRow_spec_def physicalOrder_def logicalOrder_def
        example_defs staleRotatedGrid_def eval_nat_numeral upt_rec)
  from a b c show ?thesis by (intro conjI)
qed

end
